theory Spec2Isabelle
  imports Main "HOL-Library.Multiset" "HOL-Library.AList"
begin

section \<open>The regional proxy node of KlawFetch\<close>

text \<open>
  The node is the Hono application with the handlers \<^verbatim>\<open>/health\<close>, \<^verbatim>\<open>/v1/fetch\<close> and
  \<^verbatim>\<open>/v1/usage\<close>, the function \<^verbatim>\<open>verifyToken\<close> with its token cache and the function
  \<^verbatim>\<open>reportUsage\<close> with the array \<^verbatim>\<open>pendingUsage\<close>. Every \<^verbatim>\<open>await\<close> of the source is a
  point where the outside world answers; the answer is an argument of the model, so that
  a handler is a function of the request, of what the outside world answers and of the
  state of the process, and returns the reply, the new state and the calls it made.
\<close>

subsection \<open>Data\<close>

text \<open>
  \<^verbatim>\<open>interface VerifyResponse\<close>. An optional field is an \<open>option\<close>. Credit amounts are whole
  numbers of the backend's unit; clock readings (\<^verbatim>\<open>Date.now()\<close>) are milliseconds.
\<close>

record VerifyResponse =
  valid :: bool
  agent_id :: "string option"
  email :: "string option"
  balance :: "int option"
  cost_per_unit :: "int option"
  can_afford :: "bool option"
  error :: "string option"

text \<open>
  \<^verbatim>\<open>interface UsageRecord\<close> and its \<^verbatim>\<open>metadata\<close>. The handler stores \<^verbatim>\<open>auth.agent_id!\<close>
  in the record, which is whatever the backend sent, so the field is optional here too.
\<close>

record metadata =
  region :: string
  target_domain :: string
  latency_ms :: int
  status :: nat
  bytes :: nat

record UsageRecord =
  u_agent_id :: "string option"
  operation :: string
  quantity :: nat
  timestamp :: string
  metadata :: metadata

text \<open>An entry of \<^verbatim>\<open>tokenCache\<close>, a \<^verbatim>\<open>Map\<close> from the token to the result and its expiry.\<close>

record cache_entry =
  result :: VerifyResponse
  expires :: int

type_synonym token_cache = "string \<rightharpoonup> cache_entry"

definition TOKEN_CACHE_TTL :: int where
  "TOKEN_CACHE_TTL = 60000"

text \<open>
  The state of the process: the array \<^verbatim>\<open>pendingUsage\<close>, the map \<^verbatim>\<open>tokenCache\<close>, and the
  local \<^verbatim>\<open>records\<close> of every call of \<^verbatim>\<open>reportUsage\<close> that is suspended at its
  \<^verbatim>\<open>await fetch\<close> (the batches in flight, oldest first).
\<close>

record node =
  pendingUsage :: "UsageRecord list"
  tokenCache :: token_cache
  in_flight :: "UsageRecord list list"

text \<open>
  What the platform and the environment of the process provide: the constant \<^verbatim>\<open>REGION\<close>,
  the hostname of \<^verbatim>\<open>new URL(s)\<close> (\<open>None\<close> when the constructor throws),
  \<^verbatim>\<open>String.prototype.toUpperCase\<close>, \<^verbatim>\<open>Date.prototype.toISOString\<close> on a clock reading, and
  the largest number of arguments that a call can spread an array into: a call
  \<^verbatim>\<open>f(...xs)\<close> with more elements throws a \<^verbatim>\<open>RangeError\<close> before \<^verbatim>\<open>f\<close> runs (the engine's
  limit, about 125000 on the platform of the source).
\<close>

record platform =
  REGION :: string
  url_hostname :: "string \<Rightarrow> string option"
  toUpperCase :: "string \<Rightarrow> string"
  toISOString :: "int \<Rightarrow> string"
  max_arguments :: nat

subsection \<open>Token verification\<close>

text \<open>
  What the \<^verbatim>\<open>try\<close> block of \<^verbatim>\<open>verifyToken\<close> meets: the \<^verbatim>\<open>fetch\<close> or the decoding of the
  reply throws, or the reply decodes to a \<^verbatim>\<open>VerifyResponse\<close>.
\<close>

datatype verify_outcome = VerifyThrew | VerifyReplied VerifyResponse

definition denied :: "string \<Rightarrow> VerifyResponse" where
  "denied msg = \<lparr>valid = False, agent_id = None, email = None, balance = None,
     cost_per_unit = None, can_afford = None, error = Some msg\<rparr>"

text \<open>
  \<^verbatim>\<open>verifyToken(token)\<close>. \<open>now_lookup\<close> is the clock reading of the cache test,
  \<open>now_store\<close> the one taken after the backend has answered. The third component of the
  result tells whether the backend was called.
\<close>

definition verifyToken ::
  "string \<Rightarrow> int \<Rightarrow> verify_outcome \<Rightarrow> int \<Rightarrow> token_cache \<Rightarrow> VerifyResponse \<times> token_cache \<times> bool" where
  "verifyToken token now_lookup backend now_store cache =
     (if token = [] then (denied ''No token provided'', cache, False)
      else
        (case (case cache token of
                 None \<Rightarrow> None
               | Some cached \<Rightarrow> if expires cached > now_lookup then Some (result cached) else None) of
           Some hit \<Rightarrow> (hit, cache, False)
         | None \<Rightarrow>
             (case backend of
                VerifyReplied data \<Rightarrow>
                  (data,
                   if valid data
                   then cache(token \<mapsto> \<lparr>result = data, expires = now_store + TOKEN_CACHE_TTL\<rparr>)
                   else cache,
                   True)
              | VerifyThrew \<Rightarrow> (denied ''Authentication service unavailable'', cache, True))))"

subsection \<open>The usage ledger\<close>

text \<open>\<^verbatim>\<open>pendingUsage.push(record)\<close>, the only way the request path touches the ledger.\<close>

definition push_usage :: "UsageRecord \<Rightarrow> node \<Rightarrow> node" where
  "push_usage r s = s\<lparr>pendingUsage := pendingUsage s @ [r]\<rparr>"

text \<open>
  \<^verbatim>\<open>reportUsage()\<close> up to its \<^verbatim>\<open>await fetch\<close>: nothing happens on an empty ledger;
  otherwise \<^verbatim>\<open>pendingUsage.splice(0, pendingUsage.length)\<close> empties the array and the removed
  records are the local \<^verbatim>\<open>records\<close>, which the call to the usage endpoint carries. This part
  runs without interruption, since the first \<^verbatim>\<open>await\<close> comes after it.
\<close>

definition reportUsage_begin :: "node \<Rightarrow> node" where
  "reportUsage_begin s =
     (if length (pendingUsage s) = 0 then s
      else s\<lparr>pendingUsage := [], in_flight := in_flight s @ [pendingUsage s]\<rparr>)"

text \<open>
  What the \<^verbatim>\<open>try\<close> block of \<^verbatim>\<open>reportUsage\<close> meets after the \<^verbatim>\<open>await\<close>: the \<^verbatim>\<open>fetch\<close> throws;
  or the response is not \<^verbatim>\<open>ok\<close>, and reading its text for the log succeeds or throws; or the
  response is \<^verbatim>\<open>ok\<close>, and decoding it for the log succeeds or throws.
\<close>

datatype usage_outcome =
    SubmitThrew
  | SubmitNotOk (text_read: bool)
  | SubmitOk (json_read: bool)

text \<open>
  Whether \<^verbatim>\<open>pendingUsage.push(...records)\<close> is reached: in the branch \<^verbatim>\<open>!response.ok\<close>, or in
  the \<^verbatim>\<open>catch\<close> block, which every throw inside the \<^verbatim>\<open>try\<close> block reaches. A throw of
  \<^verbatim>\<open>response.text()\<close> happens before the push of the branch.
\<close>

fun pushes_back :: "usage_outcome \<Rightarrow> bool" where
  "pushes_back SubmitThrew = True"
| "pushes_back (SubmitNotOk _) = True"
| "pushes_back (SubmitOk json_ok) = (\<not> json_ok)"

text \<open>
  \<^verbatim>\<open>pendingUsage.push(...records)\<close>: the spread passes every record as an argument of its
  own, so the call appends all the records, or throws a \<^verbatim>\<open>RangeError\<close> and appends none
  when there are more records than a call can take (\<open>None\<close>).
\<close>

definition push_records :: "platform \<Rightarrow> UsageRecord list \<Rightarrow> node \<Rightarrow> node option" where
  "push_records p records s =
     (if length records \<le> max_arguments p
      then Some (s\<lparr>pendingUsage := pendingUsage s @ records\<rparr>)
      else None)"

text \<open>
  How a call of \<^verbatim>\<open>reportUsage\<close> ends: it returns at once; it has put its batch back; it
  has reported its batch; or it ends with the \<^verbatim>\<open>RangeError\<close> of the push, its promise
  rejected, and the batch is neither in the ledger nor reported.
\<close>

datatype flush_end =
    Idle
  | Requeued
  | Reported "UsageRecord list"
  | Lost "UsageRecord list"

text \<open>
  The rest of \<^verbatim>\<open>reportUsage()\<close>, for the call whose batch is number \<open>i\<close> of the batches in
  flight. When the push in the branch \<^verbatim>\<open>!response.ok\<close> throws, the \<^verbatim>\<open>catch\<close> block runs
  the same push on the same records, which throws again, and nothing catches that: so
  on every path that reaches the push, the batch is appended once or not at all.
\<close>

definition reportUsage_end ::
  "platform \<Rightarrow> nat \<Rightarrow> usage_outcome \<Rightarrow> node \<Rightarrow> node \<times> flush_end" where
  "reportUsage_end p i outcome s =
     (if i < length (in_flight s) then
        (let records = in_flight s ! i;
             s' = s\<lparr>in_flight := take i (in_flight s) @ drop (Suc i) (in_flight s)\<rparr>
         in if pushes_back outcome
            then (case push_records p records s' of
                    Some s'' \<Rightarrow> (s'', Requeued)
                  | None \<Rightarrow> (s', Lost records))
            else (s', Reported records))
      else (s, Idle))"

subsection \<open>Requests and replies\<close>

text \<open>
  \<^verbatim>\<open>interface FetchRequest\<close>, as \<^verbatim>\<open>c.req.json()\<close> yields it. The field \<^verbatim>\<open>body\<close> is any JSON
  value: a string, or another value, of which the handler uses its truthiness and its
  \<^verbatim>\<open>JSON.stringify\<close> text only. The field \<^verbatim>\<open>method\<close> is \<open>method'\<close> here.
\<close>

datatype body_value = BodyString string | BodyOther (truthy: bool) (stringified: string)

record FetchRequest =
  url :: "string option"
  method' :: "string option"
  headers :: "(string \<times> string) list option"
  body :: "body_value option"
  timeout :: "int option"

text \<open>
  What \<^verbatim>\<open>await c.req.json()\<close> meets: it throws, or it yields \<^verbatim>\<open>null\<close> (on which \<^verbatim>\<open>body.url\<close>
  throws a \<^verbatim>\<open>TypeError\<close> that only \<^verbatim>\<open>app.onError\<close> catches), or it yields a request object.
\<close>

datatype payload = JsonThrew | JsonNull | Json FetchRequest

record request =
  authorization :: "string option"
  payload :: payload

text \<open>The arguments of the outbound \<^verbatim>\<open>fetch(body.url, fetchOptions)\<close>.\<close>

record outbound_call =
  target :: string
  call_method :: string
  call_headers :: "(string \<times> string) list"
  call_body :: "string option"
  signal_timeout :: int

text \<open>
  What the \<^verbatim>\<open>try\<close> block of the fetch handler meets: \<^verbatim>\<open>fetch\<close> and \<^verbatim>\<open>response.text()\<close> both
  resolve, with a status, headers and a body text, whatever the status is; or one of them
  throws an \<^verbatim>\<open>Error\<close> with a name and a message, or throws something that is no \<^verbatim>\<open>Error\<close>.
\<close>

datatype thrown = ThrownError (error_name: string) (error_message: string) | ThrownOther

datatype fetch_outcome =
    Responded nat "(string \<times> string) list" string
  | Threw thrown

text \<open>
  The JSON bodies the handlers send, each with its fields in this order:
  \<^verbatim>\<open>{error}\<close>; \<^verbatim>\<open>{error: 'Insufficient credits', balance, cost_per_request}\<close>;
  \<^verbatim>\<open>{status, headers, body, region, latency_ms}\<close>, the \<^verbatim>\<open>FetchResponse\<close> of the source;
  \<^verbatim>\<open>{error, region, latency_ms}\<close>;
  \<^verbatim>\<open>{agent_id, email, balance, region, pending_records, cost_per_request}\<close>;
  \<^verbatim>\<open>{status: 'ok', region, timestamp, pending_usage_records}\<close>.
\<close>

datatype reply_body =
    ErrorReply "string option"
  | InsufficientCredits "int option" "int option"
  | FetchResponse nat "(string \<times> string) list" string string int
  | ForwardFailure string string int
  | UsageStats "string option" "string option" "int option" string nat "int option"
  | Health string string nat

record reply =
  code :: nat
  content :: reply_body

text \<open>
  What the outside world answers during one request, in the order the handler asks:
  the clock at the start, the clock and the backend inside \<^verbatim>\<open>verifyToken\<close>, the outbound
  call, the clock after it, and the clock of the record's timestamp.
\<close>

record world =
  now_start :: int
  now_lookup :: int
  verify_answer :: verify_outcome
  now_store :: int
  fetch_answer :: fetch_outcome
  now_end :: int
  now_stamp :: int

text \<open>
  What a handler has done when it returns: the reply, the state of the process, whether
  the verify endpoint was called, and the outbound calls made.
\<close>

record handled =
  reply :: reply
  after :: node
  verify_called :: bool
  outbound :: "outbound_call list"

subsection \<open>The handlers\<close>

text \<open>\<^verbatim>\<open>s.startsWith(p)\<close>.\<close>

definition startsWith :: "string \<Rightarrow> string \<Rightarrow> bool" where
  "startsWith s p = (take (length p) s = p)"

text \<open>The test of the comment \<^verbatim>\<open>Block internal IPs (basic security)\<close>.\<close>

definition blocked_host :: "string \<Rightarrow> bool" where
  "blocked_host hostname =
     (hostname = ''localhost'' \<or> hostname = ''127.0.0.1'' \<or>
      startsWith hostname ''192.168.'' \<or> startsWith hostname ''10.'')"

text \<open>
  \<^verbatim>\<open>Math.min(body.timeout || 30000, 30000)\<close>: a missing timeout and the timeout 0 are falsy
  and give the default. The result is what \<^verbatim>\<open>AbortSignal.timeout\<close> is given.
\<close>

definition effective_timeout :: "int option \<Rightarrow> int" where
  "effective_timeout t =
     min (case t of None \<Rightarrow> 30000 | Some v \<Rightarrow> if v = 0 then 30000 else v) 30000"

text \<open>
  \<^verbatim>\<open>AbortSignal.timeout(delay)\<close> of the platform throws a \<^verbatim>\<open>RangeError\<close> unless the delay is
  an integer from 0 to 4294967295.
\<close>

definition signal_accepted :: "int \<Rightarrow> bool" where
  "signal_accepted delay = (0 \<le> delay \<and> delay \<le> 4294967295)"

text \<open>\<^verbatim>\<open>(body.method || 'GET').toUpperCase()\<close>.\<close>

definition effective_method :: "platform \<Rightarrow> string option \<Rightarrow> string" where
  "effective_method p m =
     toUpperCase p (case m of None \<Rightarrow> ''GET'' | Some v \<Rightarrow> if v = [] then ''GET'' else v)"

text \<open>
  Assigning the properties of an object in turn, as the spread \<^verbatim>\<open>...body.headers\<close> and the
  loop \<^verbatim>\<open>responseHeaders[key] = value\<close> do: a later value replaces an earlier one of
  the same name. (An object lists integer-like names before the others; the model
  keeps the order of the first assignment.)
\<close>

definition assign_all :: "(string \<times> string) list \<Rightarrow> (string \<times> string) list \<Rightarrow> (string \<times> string) list" where
  "assign_all kvs obj = fold (\<lambda>kv acc. AList.update (fst kv) (snd kv) acc) kvs obj"

text \<open>
  \<^verbatim>\<open>fetchOptions.body\<close>: set for a method other than GET and HEAD when \<^verbatim>\<open>body.body\<close> is
  truthy, to the string itself or to the \<^verbatim>\<open>JSON.stringify\<close> text.
\<close>

definition outbound_body :: "string \<Rightarrow> body_value option \<Rightarrow> string option" where
  "outbound_body m b =
     (if m \<noteq> ''GET'' \<and> m \<noteq> ''HEAD'' then
        (case b of
           None \<Rightarrow> None
         | Some (BodyString str) \<Rightarrow> if str = [] then None else Some str
         | Some (BodyOther t js) \<Rightarrow> if t then Some js else None)
      else None)"

definition fetchOptions :: "platform \<Rightarrow> string \<Rightarrow> FetchRequest \<Rightarrow> outbound_call" where
  "fetchOptions p u b =
     \<lparr>target = u,
      call_method = effective_method p (method' b),
      call_headers =
        assign_all (case headers b of None \<Rightarrow> [] | Some hs \<Rightarrow> hs) [(''User-Agent'', ''KeyFetch/1.0'')],
      call_body = outbound_body (effective_method p (method' b)) (body b),
      signal_timeout = effective_timeout (timeout b)\<rparr>"

text \<open>A handler that returns before any outbound call.\<close>

definition answer :: "nat \<Rightarrow> reply_body \<Rightarrow> node \<Rightarrow> bool \<Rightarrow> handled" where
  "answer c b s called =
     \<lparr>reply = \<lparr>code = c, content = b\<rparr>, after = s, verify_called = called, outbound = []\<rparr>"

text \<open>
  The object that the fetch handler pushes onto \<^verbatim>\<open>pendingUsage\<close>, for the verified identity
  \<open>auth\<close>, the hostname of the parsed URL and the status and body text of the response.
  \<^verbatim>\<open>latency\<close> is \<^verbatim>\<open>Date.now() - startTime\<close>; \<^verbatim>\<open>bytes\<close> is the length of the body text in
  the units of the platform's strings, which the model takes as the elements of the list.
\<close>

definition usage_record ::
  "platform \<Rightarrow> VerifyResponse \<Rightarrow> string \<Rightarrow> world \<Rightarrow> nat \<Rightarrow> string \<Rightarrow> UsageRecord" where
  "usage_record p auth host w st responseBody =
     \<lparr>u_agent_id = agent_id auth,
      operation = ''proxy_request'',
      quantity = 1,
      timestamp = toISOString p (now_stamp w),
      metadata = \<lparr>region = REGION p, target_domain = host,
                  latency_ms = now_end w - now_start w,
                  status = st, bytes = length responseBody\<rparr>\<rparr>"

text \<open>
  The fetch handler from \<^verbatim>\<open>Prepare fetch options\<close> on, for the verified identity \<open>auth\<close>,
  the request body \<open>b\<close>, its non-empty \<open>url\<close> \<open>u\<close> and the hostname \<open>host\<close> of the parsed
  URL. The object \<^verbatim>\<open>fetchOptions\<close> is built before the \<^verbatim>\<open>try\<close> block: when
  \<^verbatim>\<open>AbortSignal.timeout(timeout)\<close> throws, only \<^verbatim>\<open>app.onError\<close> catches it, and the reply is
  its 500 with no outbound call. Then come the \<^verbatim>\<open>try\<close> and \<^verbatim>\<open>catch\<close> blocks. A reply
  sent by \<^verbatim>\<open>c.json(result)\<close> without a status has status 200.
\<close>

definition forward ::
  "platform \<Rightarrow> VerifyResponse \<Rightarrow> FetchRequest \<Rightarrow> string \<Rightarrow> string \<Rightarrow> world \<Rightarrow> node \<Rightarrow> bool \<Rightarrow> handled" where
  "forward p auth b u host w s called =
     (if \<not> signal_accepted (effective_timeout (timeout b))
      then answer 500 (ErrorReply (Some ''Internal server error'')) s called
      else
        (let latency = now_end w - now_start w in
         case fetch_answer w of
           Responded st hs responseBody \<Rightarrow>
             (let s1 = push_usage (usage_record p auth host w st responseBody) s;
                  s2 = (if length (pendingUsage s1) > 10000 then reportUsage_begin s1 else s1)
              in \<lparr>reply = \<lparr>code = 200,
                            content = FetchResponse st (assign_all hs []) responseBody (REGION p)
                              latency\<rparr>,
                  after = s2, verify_called = called, outbound = [fetchOptions p u b]\<rparr>)
         | Threw (ThrownError name msg) \<Rightarrow>
             (if name = ''TimeoutError'' \<or> name = ''AbortError''
              then \<lparr>reply = \<lparr>code = 504,
                              content = ForwardFailure ''Request timeout'' (REGION p) latency\<rparr>,
                    after = s, verify_called = called, outbound = [fetchOptions p u b]\<rparr>
              else \<lparr>reply = \<lparr>code = 502, content = ForwardFailure msg (REGION p) latency\<rparr>,
                    after = s, verify_called = called, outbound = [fetchOptions p u b]\<rparr>)
         | Threw ThrownOther \<Rightarrow>
             \<lparr>reply = \<lparr>code = 500, content = ForwardFailure ''Unknown error'' (REGION p) latency\<rparr>,
              after = s, verify_called = called, outbound = [fetchOptions p u b]\<rparr>))"

text \<open>
  The part of the fetch handler after the affordability test: the body, the field \<^verbatim>\<open>url\<close>,
  the URL and the hostname. \<^verbatim>\<open>!body.url\<close> holds for a missing and for an empty \<^verbatim>\<open>url\<close>.
\<close>

definition validate_and_forward ::
  "platform \<Rightarrow> VerifyResponse \<Rightarrow> payload \<Rightarrow> world \<Rightarrow> node \<Rightarrow> bool \<Rightarrow> handled" where
  "validate_and_forward p auth pl w s called =
     (case pl of
        JsonThrew \<Rightarrow> answer 400 (ErrorReply (Some ''Invalid JSON body'')) s called
      | JsonNull \<Rightarrow> answer 500 (ErrorReply (Some ''Internal server error'')) s called
      | Json b \<Rightarrow>
          (case url b of
             None \<Rightarrow> answer 400 (ErrorReply (Some ''Missing required field: url'')) s called
           | Some u \<Rightarrow>
               if u = [] then answer 400 (ErrorReply (Some ''Missing required field: url'')) s called
               else
                 (case url_hostname p u of
                    None \<Rightarrow> answer 400 (ErrorReply (Some ''Invalid URL'')) s called
                  | Some hostname \<Rightarrow>
                      if blocked_host hostname
                      then answer 403 (ErrorReply (Some ''Internal URLs not allowed'')) s called
                      else forward p auth b u hostname w s called)))"

text \<open>\<^verbatim>\<open>app.post('/v1/fetch', ...)\<close>.\<close>

definition fetch_handler :: "platform \<Rightarrow> request \<Rightarrow> world \<Rightarrow> node \<Rightarrow> handled" where
  "fetch_handler p req w s =
     (case authorization req of
        None \<Rightarrow> answer 401 (ErrorReply (Some ''Missing or invalid Authorization header'')) s False
      | Some authHeader \<Rightarrow>
          if \<not> startsWith authHeader ''Bearer ''
          then answer 401 (ErrorReply (Some ''Missing or invalid Authorization header'')) s False
          else
            (case verifyToken (drop 7 authHeader) (now_lookup w) (verify_answer w) (now_store w)
                    (tokenCache s) of
               (auth, cache, called) \<Rightarrow>
                 if \<not> valid auth
                 then answer 401 (ErrorReply (error auth)) (s\<lparr>tokenCache := cache\<rparr>) called
                 else if can_afford auth = Some False
                 then answer 402 (InsufficientCredits (balance auth) (cost_per_unit auth))
                        (s\<lparr>tokenCache := cache\<rparr>) called
                 else validate_and_forward p auth (payload req) w (s\<lparr>tokenCache := cache\<rparr>) called))"

text \<open>\<^verbatim>\<open>app.get('/v1/usage', ...)\<close>.\<close>

definition usage_handler :: "platform \<Rightarrow> string option \<Rightarrow> world \<Rightarrow> node \<Rightarrow> handled" where
  "usage_handler p authz w s =
     (case authz of
        None \<Rightarrow> answer 401 (ErrorReply (Some ''Unauthorized'')) s False
      | Some authHeader \<Rightarrow>
          if \<not> startsWith authHeader ''Bearer ''
          then answer 401 (ErrorReply (Some ''Unauthorized'')) s False
          else
            (case verifyToken (drop 7 authHeader) (now_lookup w) (verify_answer w) (now_store w)
                    (tokenCache s) of
               (auth, cache, called) \<Rightarrow>
                 if \<not> valid auth
                 then answer 401 (ErrorReply (error auth)) (s\<lparr>tokenCache := cache\<rparr>) called
                 else
                   (let agentUsage = filter (\<lambda>r. u_agent_id r = agent_id auth) (pendingUsage s)
                    in answer 200
                         (UsageStats (agent_id auth) (email auth) (balance auth) (REGION p)
                            (length agentUsage) (cost_per_unit auth))
                         (s\<lparr>tokenCache := cache\<rparr>) called)))"

text \<open>\<^verbatim>\<open>app.get('/health', ...)\<close>, at the clock reading \<open>now\<close>.\<close>

definition health_handler :: "platform \<Rightarrow> int \<Rightarrow> node \<Rightarrow> reply" where
  "health_handler p now s =
     \<lparr>code = 200, content = Health (REGION p) (toISOString p now) (length (pendingUsage s))\<rparr>"

subsection \<open>Notions used in the statements\<close>

text \<open>
  A request is authorized when it carries a bearer token that verifies as valid and the
  agent is not refused for lack of credit: the first two gates of the fetch handler.
\<close>

definition authorized :: "request \<Rightarrow> world \<Rightarrow> node \<Rightarrow> bool" where
  "authorized req w s =
     (case authorization req of
        None \<Rightarrow> False
      | Some authHeader \<Rightarrow>
          startsWith authHeader ''Bearer '' \<and>
          (case verifyToken (drop 7 authHeader) (now_lookup w) (verify_answer w) (now_store w)
                  (tokenCache s) of
             (auth, cache, called) \<Rightarrow> valid auth \<and> can_afford auth \<noteq> Some False))"

text \<open>
  A request passes the gates of the fetch handler when it carries a bearer token that
  verifies as valid, the agent is not refused for lack of credit, the body is a request
  object with a non-empty \<^verbatim>\<open>url\<close> that parses, and the hostname is not blocked.
\<close>

definition passes_gates :: "platform \<Rightarrow> request \<Rightarrow> world \<Rightarrow> node \<Rightarrow> bool" where
  "passes_gates p req w s =
     (case authorization req of
        None \<Rightarrow> False
      | Some authHeader \<Rightarrow>
          startsWith authHeader ''Bearer '' \<and>
          (case verifyToken (drop 7 authHeader) (now_lookup w) (verify_answer w) (now_store w)
                  (tokenCache s) of
             (auth, cache, called) \<Rightarrow>
               valid auth \<and> can_afford auth \<noteq> Some False \<and>
               (case payload req of
                  Json b \<Rightarrow>
                    (case url b of
                       Some u \<Rightarrow>
                         u \<noteq> [] \<and>
                         (case url_hostname p u of
                            Some hostname \<Rightarrow> \<not> blocked_host hostname
                          | None \<Rightarrow> False)
                     | None \<Rightarrow> False)
                | _ \<Rightarrow> False)))"

text \<open>
  The timeout of a request is accepted when the body is a request object and
  \<^verbatim>\<open>AbortSignal.timeout\<close> takes the timeout computed from it, so that the handler reaches
  its \<^verbatim>\<open>try\<close> block and makes the outbound call.
\<close>

definition timeout_accepted :: "request \<Rightarrow> bool" where
  "timeout_accepted req =
     (case payload req of
        Json b \<Rightarrow> signal_accepted (effective_timeout (timeout b))
      | _ \<Rightarrow> False)"

text \<open>
  A request is rejected by validation when its body is malformed JSON, or has no \<^verbatim>\<open>url\<close>,
  or an \<^verbatim>\<open>url\<close> that does not parse, or one whose hostname is blocked.
\<close>

definition rejected_by_validation :: "platform \<Rightarrow> request \<Rightarrow> bool" where
  "rejected_by_validation p req =
     (case payload req of
        JsonThrew \<Rightarrow> True
      | JsonNull \<Rightarrow> False
      | Json b \<Rightarrow>
          (case url b of
             None \<Rightarrow> True
           | Some u \<Rightarrow>
               u = [] \<or>
               (case url_hostname p u of
                  None \<Rightarrow> True
                | Some hostname \<Rightarrow> blocked_host hostname)))"

text \<open>
  The usage records the process holds, oldest first: the batches of the flushes in flight,
  then the pending records.
\<close>

definition held :: "node \<Rightarrow> UsageRecord list" where
  "held s = concat (in_flight s) @ pendingUsage s"

text \<open>
  A submission of a batch has failed when the call of the usage endpoint throws or
  returns a status that is not a success.
\<close>

fun submission_failed :: "usage_outcome \<Rightarrow> bool" where
  "submission_failed SubmitThrew = True"
| "submission_failed (SubmitNotOk _) = True"
| "submission_failed (SubmitOk _) = False"

text \<open>
  One flush cycle: a call of \<^verbatim>\<open>reportUsage\<close> that no other flush overlaps, with the
  outcome of its submission and the records \<open>mid\<close> that the request path appends while
  the call is suspended. On an empty ledger the call returns at once. The second
  component tells how the call ends.
\<close>

definition flush_cycle ::
  "platform \<Rightarrow> usage_outcome \<Rightarrow> UsageRecord list \<Rightarrow> node \<Rightarrow> node \<times> flush_end" where
  "flush_cycle p outcome mid s =
     (if pendingUsage s = [] then (fold push_usage mid s, Idle)
      else reportUsage_end p (length (in_flight s)) outcome
             (fold push_usage mid (reportUsage_begin s)))"

text \<open>Flush cycles one after the other, each with its outcome and its appended records.\<close>

fun flush_cycles :: "platform \<Rightarrow> (usage_outcome \<times> UsageRecord list) list \<Rightarrow> node \<Rightarrow> node" where
  "flush_cycles p [] s = s"
| "flush_cycles p (c # cs) s = flush_cycles p cs (fst (flush_cycle p (fst c) (snd c) s))"

subsection \<open>Sample inputs\<close>

definition sample_auth :: VerifyResponse where
  "sample_auth = \<lparr>valid = True, agent_id = Some ''agent-1'', email = None, balance = Some 100,
     cost_per_unit = Some 1, can_afford = Some True, error = None\<rparr>"

text \<open>A verified agent without the credit for a request.\<close>

definition sample_broke :: VerifyResponse where
  "sample_broke = \<lparr>valid = True, agent_id = Some ''agent-1'', email = None, balance = Some 0,
     cost_per_unit = Some 1, can_afford = Some False, error = None\<rparr>"

definition sample_platform :: platform where
  "sample_platform =
     \<lparr>REGION = ''us-east'',
      url_hostname = (\<lambda>u. if u = ''https://example.com/data'' then Some ''example.com''
                          else if u = ''http://127.0.0.1/admin'' then Some ''127.0.0.1''
                          else None),
      toUpperCase = (\<lambda>m. m),
      toISOString = (\<lambda>t. ''2026-01-01T00:00:00.000Z''),
      max_arguments = 125000\<rparr>"

definition sample_world :: "verify_outcome \<Rightarrow> fetch_outcome \<Rightarrow> world" where
  "sample_world v f =
     \<lparr>now_start = 1000, now_lookup = 1001, verify_answer = v, now_store = 1020,
      fetch_answer = f, now_end = 1050, now_stamp = 1051\<rparr>"

definition sample_request :: "string \<Rightarrow> int option \<Rightarrow> request" where
  "sample_request u t =
     \<lparr>authorization = Some ''Bearer tok'',
      payload = Json \<lparr>url = Some u, method' = None, headers = None, body = None, timeout = t\<rparr>\<rparr>"

definition sample_record :: "string \<Rightarrow> nat \<Rightarrow> UsageRecord" where
  "sample_record a st =
     \<lparr>u_agent_id = Some a, operation = ''proxy_request'', quantity = 1,
      timestamp = ''2026-01-01T00:00:00.000Z'',
      metadata = \<lparr>region = ''us-east'', target_domain = ''example.com'', latency_ms = 50,
                  status = st, bytes = 9\<rparr>\<rparr>"

definition sample_node :: "UsageRecord list \<Rightarrow> node" where
  "sample_node rs = \<lparr>pendingUsage = rs, tokenCache = Map.empty, in_flight = []\<rparr>"

lemmas sample_defs = sample_auth_def sample_platform_def sample_world_def sample_request_def
  sample_record_def sample_node_def

section \<open>Properties\<close>

subsection \<open>Token verification\<close>

lemma verifyToken_empty [simp]:
  "verifyToken [] t b ts c = (denied ''No token provided'', c, False)"
  by (simp add: verifyToken_def)

lemma verifyToken_hit:
  assumes "token \<noteq> []" and "c token = Some ce" and "t < expires ce"
  shows "verifyToken token t b ts c = (result ce, c, False)"
  using assms by (simp add: verifyToken_def)

lemma verifyToken_miss:
  assumes "token \<noteq> []" and "c token = None \<or> (\<exists>ce. c token = Some ce \<and> expires ce \<le> t)"
  shows "verifyToken token t b ts c =
           (case b of
              VerifyReplied data \<Rightarrow>
                (data,
                 if valid data
                 then c(token \<mapsto> \<lparr>result = data, expires = ts + TOKEN_CACHE_TTL\<rparr>) else c,
                 True)
            | VerifyThrew \<Rightarrow> (denied ''Authentication service unavailable'', c, True))"
  using assms by (auto simp: verifyToken_def)

lemma verifyToken_called_iff:
  "snd (snd (verifyToken token t b ts c)) \<longleftrightarrow>
     token \<noteq> [] \<and> (c token = None \<or> (\<exists>ce. c token = Some ce \<and> expires ce \<le> t))"
  by (auto simp: verifyToken_def split: option.splits verify_outcome.splits)

lemma denied_invalid [simp]: "\<not> valid (denied msg)"
  by (simp add: denied_def)

lemma verifyToken_valid_entry:
  assumes "token \<noteq> []"
    and "verifyToken token t1 b1 ts1 c0 = (r1, c1, k1)"
    and "valid r1"
  shows "\<exists>ce. c1 token = Some ce \<and> result ce = r1 \<and> (k1 \<longrightarrow> expires ce = ts1 + 60000)"
proof (cases "c0 token = None \<or> (\<exists>ce. c0 token = Some ce \<and> expires ce \<le> t1)")
  case True
  have eq: "verifyToken token t1 b1 ts1 c0 =
           (case b1 of
              VerifyReplied data \<Rightarrow>
                (data,
                 if valid data
                 then c0(token \<mapsto> \<lparr>result = data, expires = ts1 + TOKEN_CACHE_TTL\<rparr>) else c0,
                 True)
            | VerifyThrew \<Rightarrow> (denied ''Authentication service unavailable'', c0, True))"
    using assms(1) True by (rule verifyToken_miss)
  show ?thesis
  proof (cases b1)
    case VerifyThrew
    with eq assms(2) have "r1 = denied ''Authentication service unavailable''" by simp
    with assms(3) show ?thesis by simp
  next
    case (VerifyReplied data)
    with eq assms(2) have "r1 = data" "k1"
      "c1 = (if valid data
             then c0(token \<mapsto> \<lparr>result = data, expires = ts1 + TOKEN_CACHE_TTL\<rparr>) else c0)"
      by auto
    with assms(3) show ?thesis by (simp add: TOKEN_CACHE_TTL_def)
  qed
next
  case False
  then obtain ce where ce: "c0 token = Some ce" "t1 < expires ce"
    by (cases "c0 token") auto
  have "verifyToken token t1 b1 ts1 c0 = (result ce, c0, False)"
    using assms(1) ce by (rule verifyToken_hit)
  with assms(2) ce show ?thesis by simp
qed

lemma sample_verify:
  "verifyToken ''tok'' 1001 (VerifyReplied sample_auth) 1020 Map.empty =
     (sample_auth, [''tok'' \<mapsto> \<lparr>result = sample_auth, expires = 61020\<rparr>], True)"
  by (simp add: verifyToken_def sample_auth_def TOKEN_CACHE_TTL_def)

text \<open>
  Claim C4. When a verification of a non-empty token returns a valid result, the cache
  holds that result for the token; when the verification called the backend, the entry
  expires 60000 milliseconds after the clock reading taken when the backend answered.
  While the token has this entry, every verification at a clock reading before the
  expiry returns the same result, leaves the cache as it is and does not call the
  backend; every verification at the expiry or later calls the backend.
\<close>

theorem cache_hit_within_ttl:
  assumes "token \<noteq> []"
    and "verifyToken token t1 b1 ts1 c0 = (r1, c1, k1)"
    and "valid r1"
  shows "\<exists>ce. c1 token = Some ce \<and> result ce = r1 \<and>
           (k1 \<longrightarrow> expires ce = ts1 + 60000) \<and>
           (\<forall>c t2 b2 ts2. c token = Some ce \<longrightarrow> t2 < expires ce \<longrightarrow>
              verifyToken token t2 b2 ts2 c = (r1, c, False)) \<and>
           (\<forall>c t2 b2 ts2. c token = Some ce \<longrightarrow> expires ce \<le> t2 \<longrightarrow>
              snd (snd (verifyToken token t2 b2 ts2 c)))"
proof -
  from verifyToken_valid_entry [OF assms] obtain ce
    where ce: "c1 token = Some ce" "result ce = r1" "k1 \<longrightarrow> expires ce = ts1 + 60000"
    by blast
  have hit: "verifyToken token t2 b2 ts2 c = (r1, c, False)"
    if "c token = Some ce" "t2 < expires ce" for c t2 b2 ts2
    using verifyToken_hit [where token = token and c = c and ce = ce and t = t2 and b = b2 and ts = ts2]
      assms(1) that ce(2) by simp
  have miss: "snd (snd (verifyToken token t2 b2 ts2 c))"
    if "c token = Some ce" "expires ce \<le> t2" for c t2 b2 ts2
    using that assms(1) by (simp add: verifyToken_called_iff)
  from ce hit miss show ?thesis by blast
qed

theorem cache_hit_within_ttl_witness:
  "''tok'' \<noteq> [] \<and> valid sample_auth \<and>
   verifyToken ''tok'' 1001 (VerifyReplied sample_auth) 1020 Map.empty =
     (sample_auth, [''tok'' \<mapsto> \<lparr>result = sample_auth, expires = 61020\<rparr>], True) \<and>
   verifyToken ''tok'' 61019 VerifyThrew 61019
       [''tok'' \<mapsto> \<lparr>result = sample_auth, expires = 61020\<rparr>] =
     (sample_auth, [''tok'' \<mapsto> \<lparr>result = sample_auth, expires = 61020\<rparr>], False) \<and>
   snd (snd (verifyToken ''tok'' 61020 VerifyThrew 61020
       [''tok'' \<mapsto> \<lparr>result = sample_auth, expires = 61020\<rparr>]))"
proof -
  let ?c = "[''tok'' \<mapsto> \<lparr>result = sample_auth, expires = 61020\<rparr>]"
  have ne: "''tok'' \<noteq> []" by simp
  have va: "valid sample_auth" by (simp add: sample_auth_def)
  have v: "verifyToken ''tok'' 1001 (VerifyReplied sample_auth) 1020 Map.empty =
      (sample_auth, ?c, True)"
    by (rule sample_verify)
  from cache_hit_within_ttl [OF ne v va] obtain ce
    where ce: "?c ''tok'' = Some ce" "expires ce = 1020 + 60000"
      and hit: "\<And>c t2 b2 ts2. c ''tok'' = Some ce \<Longrightarrow> t2 < expires ce \<Longrightarrow>
                 verifyToken ''tok'' t2 b2 ts2 c = (sample_auth, c, False)"
      and miss: "\<And>c t2 b2 ts2. c ''tok'' = Some ce \<Longrightarrow> expires ce \<le> t2 \<Longrightarrow>
                 snd (snd (verifyToken ''tok'' t2 b2 ts2 c))"
    by blast
  from ce hit [of ?c 61019 VerifyThrew 61019]
  have "verifyToken ''tok'' 61019 VerifyThrew 61019 ?c = (sample_auth, ?c, False)" by simp
  moreover from ce miss [of ?c 61020 VerifyThrew 61020]
  have "snd (snd (verifyToken ''tok'' 61020 VerifyThrew 61020 ?c))" by simp
  ultimately show ?thesis using ne va v by simp
qed

text \<open>
  Claim C6. A verification puts into the cache only an entry whose result is valid: every
  entry of the cache afterwards was there before, or has a valid result. A verification
  that returns an invalid result leaves the cache as it is; and when that result came
  from a call of the backend, every later verification of the same token on that cache
  calls the backend again.
\<close>

theorem invalid_never_cached:
  assumes "verifyToken token t1 b1 ts1 c0 = (r1, c1, k1)"
  shows "(\<forall>tok ce. c1 tok = Some ce \<longrightarrow> c0 tok = Some ce \<or> valid (result ce)) \<and>
         (\<not> valid r1 \<longrightarrow> c1 = c0) \<and>
         (\<not> valid r1 \<longrightarrow> k1 \<longrightarrow>
            (\<forall>t2 b2 ts2. t1 \<le> t2 \<longrightarrow> snd (snd (verifyToken token t2 b2 ts2 c1))))"
proof (intro conjI)
  show "\<forall>tok ce. c1 tok = Some ce \<longrightarrow> c0 tok = Some ce \<or> valid (result ce)"
    using assms
    by (auto simp: verifyToken_def split: option.splits if_splits verify_outcome.splits)
  show same: "\<not> valid r1 \<longrightarrow> c1 = c0"
    using assms
    by (auto simp: verifyToken_def split: option.splits if_splits verify_outcome.splits)
  show "\<not> valid r1 \<longrightarrow> k1 \<longrightarrow>
          (\<forall>t2 b2 ts2. t1 \<le> t2 \<longrightarrow> snd (snd (verifyToken token t2 b2 ts2 c1)))"
  proof (intro impI allI)
    fix t2 :: int and b2 ts2
    assume inv: "\<not> valid r1" and k1 and le: "t1 \<le> t2"
    from \<open>k1\<close> assms have "snd (snd (verifyToken token t1 b1 ts1 c0))" by simp
    then have miss: "token \<noteq> []" "c0 token = None \<or> (\<exists>ce. c0 token = Some ce \<and> expires ce \<le> t1)"
      by (simp_all add: verifyToken_called_iff)
    from inv same have "c1 = c0" by simp
    with miss le show "snd (snd (verifyToken token t2 b2 ts2 c1))"
      by (auto simp: verifyToken_called_iff)
  qed
qed

theorem invalid_never_cached_witness:
  "verifyToken ''bad'' 1001 (VerifyReplied (denied ''Invalid token'')) 1020 Map.empty =
     (denied ''Invalid token'', Map.empty, True) \<and>
   \<not> valid (denied ''Invalid token'') \<and> (1001 :: int) \<le> 2000 \<and>
   snd (snd (verifyToken ''bad'' 2000 (VerifyReplied sample_auth) 2001 Map.empty))"
proof -
  have v: "verifyToken ''bad'' 1001 (VerifyReplied (denied ''Invalid token'')) 1020 Map.empty =
      (denied ''Invalid token'', Map.empty, True)"
    by (simp add: verifyToken_def)
  from invalid_never_cached [OF v]
  have "snd (snd (verifyToken ''bad'' 2000 (VerifyReplied sample_auth) 2001 Map.empty))"
    by simp
  with v show ?thesis by simp
qed

subsection \<open>The fetch handler\<close>

lemma answer_simps [simp]:
  "reply (answer c b s k) = \<lparr>code = c, content = b\<rparr>"
  "after (answer c b s k) = s"
  "verify_called (answer c b s k) = k"
  "outbound (answer c b s k) = []"
  by (simp_all add: answer_def)

lemma fetch_handler_forward:
  assumes "authorization req = Some h" and "startsWith h ''Bearer ''"
    and "verifyToken (drop 7 h) (now_lookup w) (verify_answer w) (now_store w) (tokenCache s)
           = (auth, cache, called)"
    and "valid auth" and "can_afford auth \<noteq> Some False"
    and "payload req = Json b" and "url b = Some u" and "u \<noteq> []"
    and "url_hostname p u = Some host" and "\<not> blocked_host host"
  shows "fetch_handler p req w s = forward p auth b u host w (s\<lparr>tokenCache := cache\<rparr>) called"
  using assms by (simp add: fetch_handler_def validate_and_forward_def)

lemma validate_not_forwarded:
  assumes "\<not> (case pl of
                Json b \<Rightarrow>
                  (case url b of
                     Some u \<Rightarrow>
                       u \<noteq> [] \<and>
                       (case url_hostname p u of
                          Some hostname \<Rightarrow> \<not> blocked_host hostname
                        | None \<Rightarrow> False)
                   | None \<Rightarrow> False)
              | _ \<Rightarrow> False)"
  shows "after (validate_and_forward p auth pl w s called) = s \<and>
         outbound (validate_and_forward p auth pl w s called) = [] \<and>
         verify_called (validate_and_forward p auth pl w s called) = called \<and>
         code (reply (validate_and_forward p auth pl w s called)) \<in> {400, 403, 500}"
  using assms
  by (cases pl) (auto simp: validate_and_forward_def split: option.splits)

lemma fetch_handler_stopped:
  assumes "\<not> passes_gates p req w s"
  shows "pendingUsage (after (fetch_handler p req w s)) = pendingUsage s \<and>
         in_flight (after (fetch_handler p req w s)) = in_flight s \<and>
         outbound (fetch_handler p req w s) = []"
proof (cases "authorization req")
  case None
  then show ?thesis by (simp add: fetch_handler_def)
next
  case (Some h)
  show ?thesis
  proof (cases "startsWith h ''Bearer ''")
    case False
    with Some show ?thesis by (simp add: fetch_handler_def)
  next
    case True
    obtain auth cache called where v:
      "verifyToken (drop 7 h) (now_lookup w) (verify_answer w) (now_store w) (tokenCache s)
         = (auth, cache, called)"
      by (cases "verifyToken (drop 7 h) (now_lookup w) (verify_answer w) (now_store w) (tokenCache s)")
    show ?thesis
    proof (cases "valid auth \<and> can_afford auth \<noteq> Some False")
      case False
      with Some True v show ?thesis by (auto simp: fetch_handler_def)
    next
      case ok: True
      with assms Some True v
      have "\<not> (case payload req of
                Json b \<Rightarrow>
                  (case url b of
                     Some u \<Rightarrow>
                       u \<noteq> [] \<and>
                       (case url_hostname p u of
                          Some hostname \<Rightarrow> \<not> blocked_host hostname
                        | None \<Rightarrow> False)
                   | None \<Rightarrow> False)
              | _ \<Rightarrow> False)"
        by (simp add: passes_gates_def)
      from validate_not_forwarded [OF this, of auth w "s\<lparr>tokenCache := cache\<rparr>" called]
      show ?thesis using Some True v ok by (simp add: fetch_handler_def)
    qed
  qed
qed

lemma passes_gatesE:
  assumes "passes_gates p req w s"
  obtains h auth cache called b u host where
    "authorization req = Some h" and "startsWith h ''Bearer ''"
    and "verifyToken (drop 7 h) (now_lookup w) (verify_answer w) (now_store w) (tokenCache s)
           = (auth, cache, called)"
    and "valid auth" and "can_afford auth \<noteq> Some False"
    and "payload req = Json b" and "url b = Some u" and "u \<noteq> []"
    and "url_hostname p u = Some host" and "\<not> blocked_host host"
proof -
  from assms obtain h where h: "authorization req = Some h"
    by (cases "authorization req") (simp_all add: passes_gates_def)
  obtain auth cache called where v:
    "verifyToken (drop 7 h) (now_lookup w) (verify_answer w) (now_store w) (tokenCache s)
       = (auth, cache, called)"
    by (cases "verifyToken (drop 7 h) (now_lookup w) (verify_answer w) (now_store w) (tokenCache s)")
  from assms h v have g: "startsWith h ''Bearer ''" "valid auth" "can_afford auth \<noteq> Some False"
    and rest: "(case payload req of
                Json b \<Rightarrow>
                  (case url b of
                     Some u \<Rightarrow>
                       u \<noteq> [] \<and>
                       (case url_hostname p u of
                          Some hostname \<Rightarrow> \<not> blocked_host hostname
                        | None \<Rightarrow> False)
                   | None \<Rightarrow> False)
              | _ \<Rightarrow> False)"
    by (simp_all add: passes_gates_def)
  from rest obtain b where b: "payload req = Json b"
    by (cases "payload req") simp_all
  from rest b obtain u where u: "url b = Some u"
    by (cases "url b") simp_all
  from rest b u obtain host where host: "url_hostname p u = Some host"
    by (cases "url_hostname p u") simp_all
  from rest b u host have "u \<noteq> []" "\<not> blocked_host host" by simp_all
  with h g v b u host show thesis by (blast intro: that)
qed

lemma forward_refused:
  assumes "\<not> signal_accepted (effective_timeout (timeout b))"
  shows "forward p auth b u host w s called =
           answer 500 (ErrorReply (Some ''Internal server error'')) s called"
  using assms by (simp add: forward_def)

lemma forward_responded:
  assumes "signal_accepted (effective_timeout (timeout b))"
    and "fetch_answer w = Responded st hs txt"
  shows "\<exists>r. status (metadata r) = st \<and> latency_ms (metadata r) = now_end w - now_start w \<and>
             held (after (forward p auth b u host w s called)) = held s @ [r] \<and>
             (length (pendingUsage s) < 10000 \<longrightarrow>
                pendingUsage (after (forward p auth b u host w s called)) = pendingUsage s @ [r] \<and>
                in_flight (after (forward p auth b u host w s called)) = in_flight s) \<and>
             (10000 \<le> length (pendingUsage s) \<longrightarrow>
                pendingUsage (after (forward p auth b u host w s called)) = [] \<and>
                in_flight (after (forward p auth b u host w s called))
                  = in_flight s @ [pendingUsage s @ [r]])"
  using assms
  by (simp add: forward_def held_def push_usage_def reportUsage_begin_def Let_def usage_record_def)

lemma forward_effects:
  "outbound (forward p auth b u host w s called) =
     (if signal_accepted (effective_timeout (timeout b)) then [fetchOptions p u b] else [])"
  "verify_called (forward p auth b u host w s called) = called"
  "tokenCache (after (forward p auth b u host w s called)) = tokenCache s"
  by (simp_all add: forward_def push_usage_def reportUsage_begin_def Let_def
        split: fetch_outcome.split thrown.split)

lemma forward_threw:
  assumes "fetch_answer w = Threw t"
  shows "after (forward p auth b u host w s called) = s"
  using assms
  by (simp add: forward_def Let_def split: thrown.splits)

lemma forward_timeout:
  assumes "signal_accepted (effective_timeout (timeout b))"
    and "fetch_answer w = Threw (ThrownError name msg)"
    and "name = ''TimeoutError'' \<or> name = ''AbortError''"
  shows "reply (forward p auth b u host w s called) =
           \<lparr>code = 504,
            content = ForwardFailure ''Request timeout'' (REGION p) (now_end w - now_start w)\<rparr>"
  using assms by (auto simp: forward_def Let_def)

lemma forward_responded_state:
  assumes "signal_accepted (effective_timeout (timeout b))"
    and "fetch_answer w = Responded st hs txt"
  shows "after (forward p auth b u host w s called) =
           (if 10000 < length (pendingUsage (push_usage (usage_record p auth host w st txt) s))
            then reportUsage_begin (push_usage (usage_record p auth host w st txt) s)
            else push_usage (usage_record p auth host w st txt) s)"
    and "code (reply (forward p auth b u host w s called)) = 200"
  using assms by (simp_all add: forward_def Let_def)

lemma fetch_handler_reaches_try:
  assumes "passes_gates p req w s" and "timeout_accepted req"
  obtains auth cache called b u host where
    "fetch_handler p req w s = forward p auth b u host w (s\<lparr>tokenCache := cache\<rparr>) called"
    and "payload req = Json b" and "signal_accepted (effective_timeout (timeout b))"
proof -
  from assms(1) obtain h auth cache called b u host where g:
    "authorization req = Some h" "startsWith h ''Bearer ''"
    "verifyToken (drop 7 h) (now_lookup w) (verify_answer w) (now_store w) (tokenCache s)
       = (auth, cache, called)"
    "valid auth" "can_afford auth \<noteq> Some False"
    "payload req = Json b" "url b = Some u" "u \<noteq> []"
    "url_hostname p u = Some host" "\<not> blocked_host host"
    by (rule passes_gatesE)
  from g have "fetch_handler p req w s = forward p auth b u host w (s\<lparr>tokenCache := cache\<rparr>) called"
    by (rule fetch_handler_forward)
  moreover from assms(2) g(6) have "signal_accepted (effective_timeout (timeout b))"
    by (simp add: timeout_accepted_def)
  ultimately show thesis using g(6) by (blast intro: that)
qed

lemma fetch_handler_refused_timeout:
  assumes "passes_gates p req w s" and "\<not> timeout_accepted req"
  shows "reply (fetch_handler p req w s) =
           \<lparr>code = 500, content = ErrorReply (Some ''Internal server error'')\<rparr> \<and>
         outbound (fetch_handler p req w s) = [] \<and>
         pendingUsage (after (fetch_handler p req w s)) = pendingUsage s \<and>
         in_flight (after (fetch_handler p req w s)) = in_flight s"
proof -
  from assms(1) obtain h auth cache called b u host where g:
    "authorization req = Some h" "startsWith h ''Bearer ''"
    "verifyToken (drop 7 h) (now_lookup w) (verify_answer w) (now_store w) (tokenCache s)
       = (auth, cache, called)"
    "valid auth" "can_afford auth \<noteq> Some False"
    "payload req = Json b" "url b = Some u" "u \<noteq> []"
    "url_hostname p u = Some host" "\<not> blocked_host host"
    by (rule passes_gatesE)
  from g have eq: "fetch_handler p req w s =
      forward p auth b u host w (s\<lparr>tokenCache := cache\<rparr>) called"
    by (rule fetch_handler_forward)
  from assms(2) g(6) have "\<not> signal_accepted (effective_timeout (timeout b))"
    by (simp add: timeout_accepted_def)
  then show ?thesis by (simp add: eq forward_refused)
qed

lemma sample_passes:
  "passes_gates sample_platform (sample_request ''https://example.com/data'' t)
     (sample_world (VerifyReplied sample_auth) f) (sample_node rs)"
  by (simp add: passes_gates_def sample_defs verifyToken_def startsWith_def blocked_host_def)

lemma sample_handler:
  "fetch_handler sample_platform (sample_request ''https://example.com/data'' t)
     (sample_world (VerifyReplied sample_auth) f) (sample_node rs) =
   forward sample_platform sample_auth
     \<lparr>url = Some ''https://example.com/data'', method' = None, headers = None, body = None,
      timeout = t\<rparr>
     ''https://example.com/data'' ''example.com'' (sample_world (VerifyReplied sample_auth) f)
     (sample_node rs\<lparr>tokenCache := [''tok'' \<mapsto> \<lparr>result = sample_auth, expires = 61020\<rparr>]\<rparr>) True"
  by (rule fetch_handler_forward [where h = "''Bearer tok''"])
     (simp_all add: sample_defs verifyToken_def startsWith_def blocked_host_def TOKEN_CACHE_TTL_def)

lemma sample_accepted:
  assumes "signal_accepted (effective_timeout t)"
  shows "timeout_accepted (sample_request u t)"
  using assms by (simp add: timeout_accepted_def sample_request_def)

text \<open>
  A negative timeout: the request passes the gates, the signal constructor throws, and
  the reply is the 500 of \<^verbatim>\<open>app.onError\<close>, with no outbound call and no record.
\<close>

lemma negative_timeout_answers_500:
  "passes_gates sample_platform (sample_request ''https://example.com/data'' (Some (- 5)))
     (sample_world (VerifyReplied sample_auth) (Responded 200 [] ''ok'')) (sample_node []) \<and>
   \<not> timeout_accepted (sample_request ''https://example.com/data'' (Some (- 5))) \<and>
   reply (fetch_handler sample_platform (sample_request ''https://example.com/data'' (Some (- 5)))
     (sample_world (VerifyReplied sample_auth) (Responded 200 [] ''ok'')) (sample_node [])) =
     \<lparr>code = 500, content = ErrorReply (Some ''Internal server error'')\<rparr> \<and>
   outbound (fetch_handler sample_platform (sample_request ''https://example.com/data'' (Some (- 5)))
     (sample_world (VerifyReplied sample_auth) (Responded 200 [] ''ok'')) (sample_node [])) = [] \<and>
   pendingUsage (after (fetch_handler sample_platform
     (sample_request ''https://example.com/data'' (Some (- 5)))
     (sample_world (VerifyReplied sample_auth) (Responded 200 [] ''ok'')) (sample_node []))) = []"
proof -
  let ?req = "sample_request ''https://example.com/data'' (Some (- 5))"
  let ?w = "sample_world (VerifyReplied sample_auth) (Responded 200 [] ''ok'')"
  have g: "passes_gates sample_platform ?req ?w (sample_node [])"
    by (rule sample_passes)
  have t: "\<not> timeout_accepted ?req"
    by (simp add: timeout_accepted_def sample_request_def effective_timeout_def
          signal_accepted_def)
  from fetch_handler_refused_timeout [OF g t] g t show ?thesis
    by (simp add: sample_node_def)
qed

lemma rejected_not_passes:
  assumes "rejected_by_validation p req"
  shows "\<not> passes_gates p req w s"
proof
  assume "passes_gates p req w s"
  then obtain b u host where "payload req = Json b" "url b = Some u" "u \<noteq> []"
    "url_hostname p u = Some host" "\<not> blocked_host host"
    by (elim passes_gatesE)
  with assms show False by (simp add: rejected_by_validation_def)
qed

text \<open>
  Claim C1. When a request passes the gates, its timeout is one the signal constructor
  accepts, so that the outbound call is made, and the call is answered with a response of
  any status, the records the process holds afterwards are those it held
  before followed by exactly one new record, whose \<^verbatim>\<open>metadata.status\<close> is the status of
  the response and whose \<^verbatim>\<open>metadata.latency_ms\<close> is the clock reading after the call minus
  the one at the start of the handler; below the cap the new record is the last pending
  one. A request rejected by validation leaves the ledger and the batches in flight as
  they are.
\<close>

theorem usage_recorded_once:
  "(passes_gates p req w s \<longrightarrow> timeout_accepted req \<longrightarrow>
    fetch_answer w = Responded st hs txt \<longrightarrow>
      (\<exists>r. status (metadata r) = st \<and> latency_ms (metadata r) = now_end w - now_start w \<and>
           held (after (fetch_handler p req w s)) = held s @ [r] \<and>
           (length (pendingUsage s) < 10000 \<longrightarrow>
              pendingUsage (after (fetch_handler p req w s)) = pendingUsage s @ [r]))) \<and>
   (rejected_by_validation p req \<longrightarrow>
      pendingUsage (after (fetch_handler p req w s)) = pendingUsage s \<and>
      in_flight (after (fetch_handler p req w s)) = in_flight s)"
proof (rule conjI; intro impI)
  assume g: "passes_gates p req w s" and t: "timeout_accepted req"
    and f: "fetch_answer w = Responded st hs txt"
  from g t obtain auth cache called b u host where
    "fetch_handler p req w s = forward p auth b u host w (s\<lparr>tokenCache := cache\<rparr>) called"
    and acc: "signal_accepted (effective_timeout (timeout b))"
    by (rule fetch_handler_reaches_try)
  moreover from forward_responded [OF acc f, of p auth u host "s\<lparr>tokenCache := cache\<rparr>" called]
  obtain r where "status (metadata r) = st" "latency_ms (metadata r) = now_end w - now_start w"
    "held (after (forward p auth b u host w (s\<lparr>tokenCache := cache\<rparr>) called)) = held s @ [r]"
    "length (pendingUsage s) < 10000 \<longrightarrow>
       pendingUsage (after (forward p auth b u host w (s\<lparr>tokenCache := cache\<rparr>) called))
         = pendingUsage s @ [r]"
    by (auto simp: held_def)
  ultimately show "\<exists>r. status (metadata r) = st \<and>
      latency_ms (metadata r) = now_end w - now_start w \<and>
      held (after (fetch_handler p req w s)) = held s @ [r] \<and>
      (length (pendingUsage s) < 10000 \<longrightarrow>
         pendingUsage (after (fetch_handler p req w s)) = pendingUsage s @ [r])"
    by auto
next
  assume "rejected_by_validation p req"
  then have "\<not> passes_gates p req w s"
    by (rule rejected_not_passes)
  then show "pendingUsage (after (fetch_handler p req w s)) = pendingUsage s \<and>
      in_flight (after (fetch_handler p req w s)) = in_flight s"
    by (simp add: fetch_handler_stopped)
qed

theorem usage_recorded_once_witness:
  "passes_gates sample_platform (sample_request ''https://example.com/data'' None)
     (sample_world (VerifyReplied sample_auth) (Responded 404 [] ''not found'')) (sample_node []) \<and>
   timeout_accepted (sample_request ''https://example.com/data'' None) \<and>
   map metadata (pendingUsage (after (fetch_handler sample_platform
     (sample_request ''https://example.com/data'' None)
     (sample_world (VerifyReplied sample_auth) (Responded 404 [] ''not found'')) (sample_node []))))
     = [\<lparr>region = ''us-east'', target_domain = ''example.com'', latency_ms = 50, status = 404,
         bytes = 9\<rparr>] \<and>
   rejected_by_validation sample_platform (sample_request ''http://127.0.0.1/admin'' None) \<and>
   pendingUsage (after (fetch_handler sample_platform (sample_request ''http://127.0.0.1/admin'' None)
     (sample_world (VerifyReplied sample_auth) (Responded 200 [] ''ok'')) (sample_node []))) = []"
proof -
  let ?w = "sample_world (VerifyReplied sample_auth) (Responded 404 [] ''not found'')"
  let ?w' = "sample_world (VerifyReplied sample_auth) (Responded 200 [] ''ok'')"
  let ?req = "sample_request ''https://example.com/data'' None"
  let ?bad = "sample_request ''http://127.0.0.1/admin'' None"
  have g: "passes_gates sample_platform ?req ?w (sample_node [])"
    by (rule sample_passes)
  have t: "timeout_accepted ?req"
    by (rule sample_accepted) (simp add: effective_timeout_def signal_accepted_def)
  have f: "fetch_answer ?w = Responded 404 [] ''not found''"
    by (simp add: sample_world_def)
  have v: "rejected_by_validation sample_platform ?bad"
    by (simp add: rejected_by_validation_def sample_defs blocked_host_def)
  from usage_recorded_once [of sample_platform ?req ?w "sample_node []" 404 "[]" "''not found''"] g t f
  obtain r where r: "status (metadata r) = 404" "latency_ms (metadata r) = now_end ?w - now_start ?w"
    "pendingUsage (after (fetch_handler sample_platform ?req ?w (sample_node [])))
       = pendingUsage (sample_node []) @ [r]"
    by (auto simp: sample_node_def)
  have m: "map metadata (pendingUsage (after (fetch_handler sample_platform ?req ?w (sample_node []))))
     = [\<lparr>region = ''us-east'', target_domain = ''example.com'', latency_ms = 50, status = 404,
         bytes = 9\<rparr>]"
    by (simp only: sample_handler)
       (simp add: forward_def push_usage_def Let_def usage_record_def sample_defs
          effective_timeout_def signal_accepted_def)
  from usage_recorded_once [of sample_platform ?bad ?w' "sample_node []"] v
  have "pendingUsage (after (fetch_handler sample_platform ?bad ?w' (sample_node []))) = []"
    by (simp add: sample_node_def)
  with g t m v show ?thesis by simp
qed

text \<open>
  Claim C2, as amended. When a request passes the gates, its timeout is one the signal
  constructor accepts, so that the outbound call is made, and the call throws an error
  named \<^verbatim>\<open>TimeoutError\<close> or \<^verbatim>\<open>AbortError\<close>, the reply has status 504 and carries
  the message, the region and the latency, and the ledger and the batches in flight are
  as they were: no usage record is appended.
\<close>

theorem timeout_returns_504_without_record:
  assumes "passes_gates p req w s"
    and "timeout_accepted req"
    and "fetch_answer w = Threw (ThrownError name msg)"
    and "name = ''TimeoutError'' \<or> name = ''AbortError''"
  shows "reply (fetch_handler p req w s) =
           \<lparr>code = 504,
            content = ForwardFailure ''Request timeout'' (REGION p) (now_end w - now_start w)\<rparr> \<and>
         pendingUsage (after (fetch_handler p req w s)) = pendingUsage s \<and>
         in_flight (after (fetch_handler p req w s)) = in_flight s"
proof -
  from assms(1,2) obtain auth cache called b u host where
    eq: "fetch_handler p req w s = forward p auth b u host w (s\<lparr>tokenCache := cache\<rparr>) called"
    and acc: "signal_accepted (effective_timeout (timeout b))"
    by (rule fetch_handler_reaches_try)
  from forward_timeout [OF acc assms(3,4)] forward_threw [OF assms(3)] eq
  show ?thesis by simp
qed

theorem timeout_returns_504_without_record_witness:
  "passes_gates sample_platform (sample_request ''https://example.com/data'' (Some 5000))
     (sample_world (VerifyReplied sample_auth) (Threw (ThrownError ''TimeoutError'' ''timed out'')))
     (sample_node [sample_record ''agent-1'' 200]) \<and>
   timeout_accepted (sample_request ''https://example.com/data'' (Some 5000)) \<and>
   reply (fetch_handler sample_platform (sample_request ''https://example.com/data'' (Some 5000))
     (sample_world (VerifyReplied sample_auth) (Threw (ThrownError ''TimeoutError'' ''timed out'')))
     (sample_node [sample_record ''agent-1'' 200])) =
     \<lparr>code = 504, content = ForwardFailure ''Request timeout'' ''us-east'' 50\<rparr> \<and>
   pendingUsage (after (fetch_handler sample_platform
     (sample_request ''https://example.com/data'' (Some 5000))
     (sample_world (VerifyReplied sample_auth) (Threw (ThrownError ''TimeoutError'' ''timed out'')))
     (sample_node [sample_record ''agent-1'' 200]))) = [sample_record ''agent-1'' 200]"
proof -
  let ?w = "sample_world (VerifyReplied sample_auth)
              (Threw (ThrownError ''TimeoutError'' ''timed out''))"
  have g: "passes_gates sample_platform (sample_request ''https://example.com/data'' (Some 5000)) ?w
      (sample_node [sample_record ''agent-1'' 200])"
    by (rule sample_passes)
  have f: "fetch_answer ?w = Threw (ThrownError ''TimeoutError'' ''timed out'')"
    by (simp add: sample_world_def)
  have t: "timeout_accepted (sample_request ''https://example.com/data'' (Some 5000))"
    by (rule sample_accepted) (simp add: effective_timeout_def signal_accepted_def)
  have n: "''TimeoutError'' = ''TimeoutError'' \<or> ''TimeoutError'' = ''AbortError''"
    by simp
  from timeout_returns_504_without_record [OF g t f n] g t show ?thesis
    by (simp add: sample_world_def sample_platform_def sample_node_def)
qed

text \<open>
  The claim C2 as stated fails: on a timed-out outbound call of a request that passes the
  gates, with an empty ledger, the reply is a 504 and the process holds no record
  afterwards.
\<close>

theorem timeout_record_counterexample:
  "passes_gates sample_platform (sample_request ''https://example.com/data'' (Some 5000))
     (sample_world (VerifyReplied sample_auth) (Threw (ThrownError ''TimeoutError'' ''timed out'')))
     (sample_node []) \<and>
   code (reply (fetch_handler sample_platform (sample_request ''https://example.com/data'' (Some 5000))
     (sample_world (VerifyReplied sample_auth) (Threw (ThrownError ''TimeoutError'' ''timed out'')))
     (sample_node []))) = 504 \<and>
   held (after (fetch_handler sample_platform (sample_request ''https://example.com/data'' (Some 5000))
     (sample_world (VerifyReplied sample_auth) (Threw (ThrownError ''TimeoutError'' ''timed out'')))
     (sample_node []))) = [] \<and>
   length (held (after (fetch_handler sample_platform
     (sample_request ''https://example.com/data'' (Some 5000))
     (sample_world (VerifyReplied sample_auth) (Threw (ThrownError ''TimeoutError'' ''timed out'')))
     (sample_node [])))) \<noteq> length (held (sample_node [])) + 1"
proof -
  have "passes_gates sample_platform (sample_request ''https://example.com/data'' (Some 5000))
     (sample_world (VerifyReplied sample_auth) (Threw (ThrownError ''TimeoutError'' ''timed out'')))
     (sample_node [])"
    by (rule sample_passes)
  then show ?thesis
    by (simp only: sample_handler)
       (simp add: forward_def Let_def held_def sample_world_def sample_node_def
          effective_timeout_def signal_accepted_def)
qed

text \<open>
  Claim C5. When the call of the verify endpoint throws (the \<^verbatim>\<open>fetch\<close> or the decoding of
  its reply), every verification that calls the backend returns the result
  \<^verbatim>\<open>{valid: false, error: 'Authentication service unavailable'}\<close>, which is not valid, and
  leaves the cache as it is; and a fetch request whose verification called the backend
  is answered 401 with that message, with no outbound call, and with the ledger, the
  batches in flight and the cache as they were.
\<close>

theorem backend_failure_fails_closed:
  assumes "verify_answer w = VerifyThrew"
  shows "(snd (snd (verifyToken token (now_lookup w) (verify_answer w) (now_store w) c)) \<longrightarrow>
            verifyToken token (now_lookup w) (verify_answer w) (now_store w) c =
              (denied ''Authentication service unavailable'', c, True) \<and>
            \<not> valid (denied ''Authentication service unavailable'')) \<and>
         (verify_called (fetch_handler p req w s) \<longrightarrow>
            reply (fetch_handler p req w s) =
              \<lparr>code = 401, content = ErrorReply (Some ''Authentication service unavailable'')\<rparr> \<and>
            pendingUsage (after (fetch_handler p req w s)) = pendingUsage s \<and>
            in_flight (after (fetch_handler p req w s)) = in_flight s \<and>
            tokenCache (after (fetch_handler p req w s)) = tokenCache s \<and>
            outbound (fetch_handler p req w s) = [])"
proof (rule conjI; intro impI)
  assume k: "snd (snd (verifyToken token (now_lookup w) (verify_answer w) (now_store w) c))"
  then have "token \<noteq> []"
    "c token = None \<or> (\<exists>ce. c token = Some ce \<and> expires ce \<le> now_lookup w)"
    by (simp_all add: verifyToken_called_iff)
  then have "verifyToken token (now_lookup w) (verify_answer w) (now_store w) c =
      (case verify_answer w of
         VerifyReplied data \<Rightarrow>
           (data,
            if valid data
            then c(token \<mapsto> \<lparr>result = data, expires = now_store w + TOKEN_CACHE_TTL\<rparr>) else c,
            True)
       | VerifyThrew \<Rightarrow> (denied ''Authentication service unavailable'', c, True))"
    by (rule verifyToken_miss)
  with assms
  show "verifyToken token (now_lookup w) (verify_answer w) (now_store w) c =
          (denied ''Authentication service unavailable'', c, True) \<and>
        \<not> valid (denied ''Authentication service unavailable'')"
    by simp
next
  assume k: "verify_called (fetch_handler p req w s)"
  then obtain h where h: "authorization req = Some h" "startsWith h ''Bearer ''"
    by (cases "authorization req"; cases "startsWith (the (authorization req)) ''Bearer ''")
       (simp_all add: fetch_handler_def)
  obtain auth cache called where v:
    "verifyToken (drop 7 h) (now_lookup w) (verify_answer w) (now_store w) (tokenCache s)
       = (auth, cache, called)"
    by (cases "verifyToken (drop 7 h) (now_lookup w) (verify_answer w) (now_store w) (tokenCache s)")
  have called: "verify_called (fetch_handler p req w s) = called"
  proof (cases "valid auth \<and> can_afford auth \<noteq> Some False")
    case False
    with h v show ?thesis by (auto simp: fetch_handler_def)
  next
    case True
    with h v have "fetch_handler p req w s =
        validate_and_forward p auth (payload req) w (s\<lparr>tokenCache := cache\<rparr>) called"
      by (simp add: fetch_handler_def)
    then show ?thesis
      by (simp add: validate_and_forward_def forward_effects
            split: payload.split option.split)
  qed
  with k have "called" by simp
  with v have "snd (snd (verifyToken (drop 7 h) (now_lookup w) (verify_answer w) (now_store w)
      (tokenCache s)))" by simp
  then have "drop 7 h \<noteq> []"
    "tokenCache s (drop 7 h) = None \<or>
       (\<exists>ce. tokenCache s (drop 7 h) = Some ce \<and> expires ce \<le> now_lookup w)"
    by (simp_all add: verifyToken_called_iff)
  then have "verifyToken (drop 7 h) (now_lookup w) (verify_answer w) (now_store w) (tokenCache s) =
      (case verify_answer w of
         VerifyReplied data \<Rightarrow>
           (data,
            if valid data
            then (tokenCache s)(drop 7 h \<mapsto>
                   \<lparr>result = data, expires = now_store w + TOKEN_CACHE_TTL\<rparr>)
            else tokenCache s,
            True)
       | VerifyThrew \<Rightarrow> (denied ''Authentication service unavailable'', tokenCache s, True))"
    by (rule verifyToken_miss)
  with assms v have "auth = denied ''Authentication service unavailable''" "cache = tokenCache s"
    by simp_all
  with h v
  show "reply (fetch_handler p req w s) =
          \<lparr>code = 401, content = ErrorReply (Some ''Authentication service unavailable'')\<rparr> \<and>
        pendingUsage (after (fetch_handler p req w s)) = pendingUsage s \<and>
        in_flight (after (fetch_handler p req w s)) = in_flight s \<and>
        tokenCache (after (fetch_handler p req w s)) = tokenCache s \<and>
        outbound (fetch_handler p req w s) = []"
    by (simp add: fetch_handler_def denied_def)
qed

theorem backend_failure_fails_closed_witness:
  "verify_answer (sample_world VerifyThrew (Responded 200 [] ''ok'')) = VerifyThrew \<and>
   verifyToken ''tok'' 1001 VerifyThrew 1020 Map.empty =
     (denied ''Authentication service unavailable'', Map.empty, True) \<and>
   verify_called (fetch_handler sample_platform (sample_request ''https://example.com/data'' None)
     (sample_world VerifyThrew (Responded 200 [] ''ok'')) (sample_node [])) \<and>
   reply (fetch_handler sample_platform (sample_request ''https://example.com/data'' None)
     (sample_world VerifyThrew (Responded 200 [] ''ok'')) (sample_node [])) =
     \<lparr>code = 401, content = ErrorReply (Some ''Authentication service unavailable'')\<rparr> \<and>
   pendingUsage (after (fetch_handler sample_platform (sample_request ''https://example.com/data'' None)
     (sample_world VerifyThrew (Responded 200 [] ''ok'')) (sample_node []))) = [] \<and>
   outbound (fetch_handler sample_platform (sample_request ''https://example.com/data'' None)
     (sample_world VerifyThrew (Responded 200 [] ''ok'')) (sample_node [])) = []"
proof -
  let ?w = "sample_world VerifyThrew (Responded 200 [] ''ok'')"
  let ?req = "sample_request ''https://example.com/data'' None"
  have a: "verify_answer ?w = VerifyThrew" by (simp add: sample_world_def)
  have k1: "snd (snd (verifyToken ''tok'' (now_lookup ?w) (verify_answer ?w) (now_store ?w) Map.empty))"
    by (simp add: verifyToken_called_iff)
  have k2: "verify_called (fetch_handler sample_platform ?req ?w (sample_node []))"
    by (simp add: fetch_handler_def sample_defs verifyToken_def startsWith_def)
  from backend_failure_fails_closed [OF a, of "''tok''" Map.empty sample_platform ?req "sample_node []"]
    k1 k2 a
  show ?thesis by (simp add: sample_world_def sample_node_def)
qed

lemma fetch_handler_unauthorized:
  assumes "\<not> authorized req w s"
  shows "code (reply (fetch_handler p req w s)) = 401 \<or> code (reply (fetch_handler p req w s)) = 402"
proof (cases "authorization req")
  case None
  then show ?thesis by (simp add: fetch_handler_def)
next
  case (Some h)
  show ?thesis
  proof (cases "startsWith h ''Bearer ''")
    case False
    with Some show ?thesis by (simp add: fetch_handler_def)
  next
    case True
    obtain auth cache called where v:
      "verifyToken (drop 7 h) (now_lookup w) (verify_answer w) (now_store w) (tokenCache s)
         = (auth, cache, called)"
      by (cases "verifyToken (drop 7 h) (now_lookup w) (verify_answer w) (now_store w) (tokenCache s)")
    from assms Some True v have "\<not> valid auth \<or> can_afford auth = Some False"
      by (simp add: authorized_def)
    with Some True v show ?thesis by (auto simp: fetch_handler_def)
  qed
qed

lemma fetch_handler_authorized:
  assumes "authorized req w s"
  shows "\<exists>auth cache called.
           fetch_handler p req w s =
             validate_and_forward p auth (payload req) w (s\<lparr>tokenCache := cache\<rparr>) called"
proof -
  from assms obtain h where h: "authorization req = Some h"
    by (cases "authorization req") (simp_all add: authorized_def)
  obtain auth cache called where v:
    "verifyToken (drop 7 h) (now_lookup w) (verify_answer w) (now_store w) (tokenCache s)
       = (auth, cache, called)"
    by (cases "verifyToken (drop 7 h) (now_lookup w) (verify_answer w) (now_store w) (tokenCache s)")
  from assms h v have "startsWith h ''Bearer ''" "valid auth" "can_afford auth \<noteq> Some False"
    by (simp_all add: authorized_def)
  with h v have "fetch_handler p req w s =
      validate_and_forward p auth (payload req) w (s\<lparr>tokenCache := cache\<rparr>) called"
    by (simp add: fetch_handler_def)
  then show ?thesis by blast
qed

lemma blocked_not_passes:
  assumes "payload req = Json b" and "url b = Some u" and "url_hostname p u = Some host"
    and "blocked_host host"
  shows "\<not> passes_gates p req w s"
proof
  assume "passes_gates p req w s"
  then obtain b' u' host' where "payload req = Json b'" "url b' = Some u'"
    "url_hostname p u' = Some host'" "\<not> blocked_host host'"
    by (elim passes_gatesE)
  with assms show False by simp
qed

text \<open>
  Claim C7, as amended. When the hostname of the target URL is \<^verbatim>\<open>127.0.0.1\<close> or
  \<^verbatim>\<open>localhost\<close>, or starts with \<^verbatim>\<open>10.\<close> or \<^verbatim>\<open>192.168.\<close>, the fetch handler makes no
  outbound call and leaves the ledger and the batches in flight as they are, whatever
  else the request holds; the reply is the 403 \<^verbatim>\<open>Internal URLs not allowed\<close> when the
  request is authorized, and the 401 or 402 of the earlier gates otherwise.
\<close>

theorem internal_hosts_blocked:
  assumes "payload req = Json b" and "url b = Some u" and "u \<noteq> []"
    and "url_hostname p u = Some host"
    and "host = ''127.0.0.1'' \<or> host = ''localhost'' \<or> startsWith host ''10.'' \<or>
         startsWith host ''192.168.''"
  shows "outbound (fetch_handler p req w s) = [] \<and>
         pendingUsage (after (fetch_handler p req w s)) = pendingUsage s \<and>
         in_flight (after (fetch_handler p req w s)) = in_flight s \<and>
         (if authorized req w s
          then reply (fetch_handler p req w s) =
                 \<lparr>code = 403, content = ErrorReply (Some ''Internal URLs not allowed'')\<rparr>
          else code (reply (fetch_handler p req w s)) = 401 \<or>
               code (reply (fetch_handler p req w s)) = 402)"
proof -
  from assms(5) have blocked: "blocked_host host"
    by (auto simp: blocked_host_def)
  with assms(1,2,4) have "\<not> passes_gates p req w s"
    by (rule blocked_not_passes)
  then have stop: "outbound (fetch_handler p req w s) = []"
    "pendingUsage (after (fetch_handler p req w s)) = pendingUsage s"
    "in_flight (after (fetch_handler p req w s)) = in_flight s"
    by (simp_all add: fetch_handler_stopped)
  have "reply (fetch_handler p req w s) =
      \<lparr>code = 403, content = ErrorReply (Some ''Internal URLs not allowed'')\<rparr>"
    if "authorized req w s"
  proof -
    from fetch_handler_authorized [OF that, of p] obtain auth cache called where
      "fetch_handler p req w s =
         validate_and_forward p auth (payload req) w (s\<lparr>tokenCache := cache\<rparr>) called"
      by blast
    with assms(1-4) blocked show ?thesis
      by (simp add: validate_and_forward_def)
  qed
  with stop fetch_handler_unauthorized [of req w s p] show ?thesis
    by (cases "authorized req w s") simp_all
qed

theorem internal_hosts_blocked_witness:
  "authorized (sample_request ''http://127.0.0.1/admin'' None)
     (sample_world (VerifyReplied sample_auth) (Responded 200 [] ''secret'')) (sample_node []) \<and>
   reply (fetch_handler sample_platform (sample_request ''http://127.0.0.1/admin'' None)
     (sample_world (VerifyReplied sample_auth) (Responded 200 [] ''secret'')) (sample_node [])) =
     \<lparr>code = 403, content = ErrorReply (Some ''Internal URLs not allowed'')\<rparr> \<and>
   outbound (fetch_handler sample_platform (sample_request ''http://127.0.0.1/admin'' None)
     (sample_world (VerifyReplied sample_auth) (Responded 200 [] ''secret'')) (sample_node [])) = [] \<and>
   pendingUsage (after (fetch_handler sample_platform (sample_request ''http://127.0.0.1/admin'' None)
     (sample_world (VerifyReplied sample_auth) (Responded 200 [] ''secret'')) (sample_node []))) = []"
proof -
  let ?req = "sample_request ''http://127.0.0.1/admin'' None"
  let ?w = "sample_world (VerifyReplied sample_auth) (Responded 200 [] ''secret'')"
  let ?b = "\<lparr>url = Some ''http://127.0.0.1/admin'', method' = None, headers = None, body = None,
             timeout = None\<rparr>"
  have a: "authorized ?req ?w (sample_node [])"
    by (simp add: authorized_def sample_defs verifyToken_def startsWith_def)
  have 1: "payload ?req = Json ?b" by (simp add: sample_request_def)
  have 2: "url ?b = Some ''http://127.0.0.1/admin''" by simp
  have 3: "''http://127.0.0.1/admin'' \<noteq> []" by simp
  have 4: "url_hostname sample_platform ''http://127.0.0.1/admin'' = Some ''127.0.0.1''"
    by (simp add: sample_platform_def)
  have 5: "''127.0.0.1'' = ''127.0.0.1'' \<or> ''127.0.0.1'' = ''localhost'' \<or>
      startsWith ''127.0.0.1'' ''10.'' \<or> startsWith ''127.0.0.1'' ''192.168.''"
    by simp
  from internal_hosts_blocked [OF 1 2 3 4 5, of ?w "sample_node []"] a
  show ?thesis by (simp add: sample_node_def)
qed

text \<open>
  The claim C7 as stated fails: a request for \<^verbatim>\<open>http://127.0.0.1/admin\<close> from a verified
  agent without credit is answered 402, and one without an \<^verbatim>\<open>Authorization\<close> header 401,
  not 403; the gates of authentication and affordability stand before the host check.
\<close>

theorem blocked_host_not_403_counterexample:
  "url_hostname sample_platform ''http://127.0.0.1/admin'' = Some ''127.0.0.1'' \<and>
   code (reply (fetch_handler sample_platform (sample_request ''http://127.0.0.1/admin'' None)
     (sample_world (VerifyReplied sample_broke) (Responded 200 [] ''secret'')) (sample_node [])))
     = 402 \<and>
   code (reply (fetch_handler sample_platform
     ((sample_request ''http://127.0.0.1/admin'' None)\<lparr>authorization := None\<rparr>)
     (sample_world (VerifyReplied sample_auth) (Responded 200 [] ''secret'')) (sample_node [])))
     = 401"
  by (simp add: fetch_handler_def sample_defs sample_broke_def verifyToken_def startsWith_def)

text \<open>
  Claim C8. When a request passes the gates, its timeout is one the signal constructor
  accepts, so that the outbound call is made, and the call is answered, and the ledger
  holds 10000 records or more before the push (so that the push takes it above
  10000), the state in which the handler returns is that of \<^verbatim>\<open>reportUsage\<close> begun on the
  ledger with the new record: the ledger is empty and its records, the new one last, are
  a batch in flight, whose submission is still pending when the handler replies 200. Below
  10000 records the handler only pushes, and begins no flush.
\<close>

theorem cap_forces_flush:
  assumes "passes_gates p req w s" and "timeout_accepted req"
    and "fetch_answer w = Responded st hs txt"
  shows "\<exists>r cache.
           (10000 \<le> length (pendingUsage s) \<longrightarrow>
              after (fetch_handler p req w s) =
                reportUsage_begin (push_usage r (s\<lparr>tokenCache := cache\<rparr>)) \<and>
              pendingUsage (after (fetch_handler p req w s)) = [] \<and>
              in_flight (after (fetch_handler p req w s)) = in_flight s @ [pendingUsage s @ [r]] \<and>
              code (reply (fetch_handler p req w s)) = 200) \<and>
           (length (pendingUsage s) < 10000 \<longrightarrow>
              after (fetch_handler p req w s) = push_usage r (s\<lparr>tokenCache := cache\<rparr>) \<and>
              in_flight (after (fetch_handler p req w s)) = in_flight s)"
proof -
  from assms(1,2) obtain auth cache called b u host where
    eq: "fetch_handler p req w s = forward p auth b u host w (s\<lparr>tokenCache := cache\<rparr>) called"
    and acc: "signal_accepted (effective_timeout (timeout b))"
    by (rule fetch_handler_reaches_try)
  define r where "r = usage_record p auth host w st txt"
  from forward_responded_state [OF acc assms(3), of p auth u host "s\<lparr>tokenCache := cache\<rparr>" called]
  have r:
    "after (forward p auth b u host w (s\<lparr>tokenCache := cache\<rparr>) called) =
       (if 10000 < length (pendingUsage (push_usage r (s\<lparr>tokenCache := cache\<rparr>)))
        then reportUsage_begin (push_usage r (s\<lparr>tokenCache := cache\<rparr>))
        else push_usage r (s\<lparr>tokenCache := cache\<rparr>))"
    "code (reply (forward p auth b u host w (s\<lparr>tokenCache := cache\<rparr>) called)) = 200"
    by (simp_all add: r_def)
  have "(10000 \<le> length (pendingUsage s) \<longrightarrow>
              after (fetch_handler p req w s) =
                reportUsage_begin (push_usage r (s\<lparr>tokenCache := cache\<rparr>)) \<and>
              pendingUsage (after (fetch_handler p req w s)) = [] \<and>
              in_flight (after (fetch_handler p req w s)) = in_flight s @ [pendingUsage s @ [r]] \<and>
              code (reply (fetch_handler p req w s)) = 200) \<and>
           (length (pendingUsage s) < 10000 \<longrightarrow>
              after (fetch_handler p req w s) = push_usage r (s\<lparr>tokenCache := cache\<rparr>) \<and>
              in_flight (after (fetch_handler p req w s)) = in_flight s)"
    using r by (simp add: eq push_usage_def reportUsage_begin_def)
  then show ?thesis by blast
qed

theorem cap_forces_flush_witness:
  "passes_gates sample_platform (sample_request ''https://example.com/data'' None)
     (sample_world (VerifyReplied sample_auth) (Responded 200 [] ''ok''))
     (sample_node (replicate 10000 (sample_record ''agent-1'' 200))) \<and>
   timeout_accepted (sample_request ''https://example.com/data'' None) \<and>
   10000 \<le> length (pendingUsage (sample_node (replicate 10000 (sample_record ''agent-1'' 200)))) \<and>
   pendingUsage (after (fetch_handler sample_platform (sample_request ''https://example.com/data'' None)
     (sample_world (VerifyReplied sample_auth) (Responded 200 [] ''ok''))
     (sample_node (replicate 10000 (sample_record ''agent-1'' 200))))) = [] \<and>
   map length (in_flight (after (fetch_handler sample_platform
     (sample_request ''https://example.com/data'' None)
     (sample_world (VerifyReplied sample_auth) (Responded 200 [] ''ok''))
     (sample_node (replicate 10000 (sample_record ''agent-1'' 200)))))) = [10001] \<and>
   code (reply (fetch_handler sample_platform (sample_request ''https://example.com/data'' None)
     (sample_world (VerifyReplied sample_auth) (Responded 200 [] ''ok''))
     (sample_node (replicate 10000 (sample_record ''agent-1'' 200))))) = 200"
proof -
  let ?s = "sample_node (replicate 10000 (sample_record ''agent-1'' 200))"
  let ?w = "sample_world (VerifyReplied sample_auth) (Responded 200 [] ''ok'')"
  let ?req = "sample_request ''https://example.com/data'' None"
  have g: "passes_gates sample_platform ?req ?w ?s" by (rule sample_passes)
  have f: "fetch_answer ?w = Responded 200 [] ''ok''" by (simp add: sample_world_def)
  have t: "timeout_accepted ?req"
    by (rule sample_accepted) (simp add: effective_timeout_def signal_accepted_def)
  have n: "10000 \<le> length (pendingUsage ?s)" by (simp add: sample_node_def)
  from cap_forces_flush [OF g t f] n obtain r where
    "pendingUsage (after (fetch_handler sample_platform ?req ?w ?s)) = []"
    "in_flight (after (fetch_handler sample_platform ?req ?w ?s)) = in_flight ?s @ [pendingUsage ?s @ [r]]"
    "code (reply (fetch_handler sample_platform ?req ?w ?s)) = 200"
    by blast
  with g t n show ?thesis by (simp add: sample_node_def)
qed

text \<open>
  Claim C9. The timeout computed from any requested timeout is at most 30000, and every
  outbound call of the fetch handler carries a timeout of at most 30000, which is the one
  computed from the \<^verbatim>\<open>timeout\<close> of the request body.
\<close>

theorem timeout_clamped:
  "effective_timeout t \<le> 30000 \<and>
   (\<forall>c \<in> set (outbound (fetch_handler p req w s)).
      signal_timeout c \<le> 30000 \<and>
      (\<forall>b. payload req = Json b \<longrightarrow> signal_timeout c = effective_timeout (timeout b)))"
proof (rule conjI)
  show le: "effective_timeout t \<le> 30000" for t
    by (simp add: effective_timeout_def)
  show "\<forall>c \<in> set (outbound (fetch_handler p req w s)).
      signal_timeout c \<le> 30000 \<and>
      (\<forall>b. payload req = Json b \<longrightarrow> signal_timeout c = effective_timeout (timeout b))"
  proof (cases "passes_gates p req w s")
    case False
    then show ?thesis by (simp add: fetch_handler_stopped)
  next
    case True
    then obtain auth cache called b u host where b: "payload req = Json b"
      and eq: "fetch_handler p req w s = forward p auth b u host w (s\<lparr>tokenCache := cache\<rparr>) called"
      by (elim passes_gatesE) (blast dest: fetch_handler_forward)
    have "outbound (fetch_handler p req w s) =
        (if signal_accepted (effective_timeout (timeout b)) then [fetchOptions p u b] else [])"
      by (simp add: eq forward_effects)
    with b le [of "timeout b"] show ?thesis
      by (simp add: fetchOptions_def)
  qed
qed

theorem timeout_clamped_witness:
  "map signal_timeout (outbound (fetch_handler sample_platform
      (sample_request ''https://example.com/data'' (Some 60000))
      (sample_world (VerifyReplied sample_auth) (Responded 200 [] ''ok'')) (sample_node []))) = [30000] \<and>
   effective_timeout (Some 60000) \<le> 30000"
proof -
  let ?h = "fetch_handler sample_platform
      (sample_request ''https://example.com/data'' (Some 60000))
      (sample_world (VerifyReplied sample_auth) (Responded 200 [] ''ok'')) (sample_node [])"
  have o: "map signal_timeout (outbound ?h) = [30000]"
    by (simp only: sample_handler)
       (simp add: forward_effects fetchOptions_def effective_timeout_def signal_accepted_def)
  from timeout_clamped [of "Some 60000" sample_platform
      "sample_request ''https://example.com/data'' (Some 60000)"
      "sample_world (VerifyReplied sample_auth) (Responded 200 [] ''ok'')" "sample_node []"]
  have "effective_timeout (Some 60000) \<le> 30000" by blast
  with o show ?thesis by simp
qed

text \<open>
  Claim C10. For a usage request with a bearer token that verifies as valid, the field
  \<^verbatim>\<open>pending_records\<close> of the reply is the number of pending records whose \<^verbatim>\<open>agent_id\<close> is
  the verified \<^verbatim>\<open>agent_id\<close>, whereas \<^verbatim>\<open>pending_usage_records\<close> of the health reply is the
  number of all pending records.
\<close>

theorem usage_counts_own_records:
  assumes "startsWith h ''Bearer ''"
    and "verifyToken (drop 7 h) (now_lookup w) (verify_answer w) (now_store w) (tokenCache s)
           = (auth, cache, called)"
    and "valid auth"
  shows "reply (usage_handler p (Some h) w s) =
           \<lparr>code = 200,
            content = UsageStats (agent_id auth) (email auth) (balance auth) (REGION p)
              (length (filter (\<lambda>r. u_agent_id r = agent_id auth) (pendingUsage s)))
              (cost_per_unit auth)\<rparr> \<and>
         content (health_handler p now s) =
           Health (REGION p) (toISOString p now) (length (pendingUsage s))"
  using assms by (simp add: usage_handler_def health_handler_def)

theorem usage_counts_own_records_witness:
  "startsWith ''Bearer tok'' ''Bearer '' \<and> valid sample_auth \<and>
   content (reply (usage_handler sample_platform (Some ''Bearer tok'')
     (sample_world (VerifyReplied sample_auth) (Threw ThrownOther))
     (sample_node [sample_record ''agent-1'' 200, sample_record ''agent-2'' 200,
        sample_record ''agent-1'' 404]))) =
     UsageStats (Some ''agent-1'') None (Some 100) ''us-east'' 2 (Some 1) \<and>
   content (health_handler sample_platform 2000
     (sample_node [sample_record ''agent-1'' 200, sample_record ''agent-2'' 200,
        sample_record ''agent-1'' 404])) =
     Health ''us-east'' ''2026-01-01T00:00:00.000Z'' 3"
proof -
  let ?s = "sample_node [sample_record ''agent-1'' 200, sample_record ''agent-2'' 200,
        sample_record ''agent-1'' 404]"
  let ?w = "sample_world (VerifyReplied sample_auth) (Threw ThrownOther)"
  have b: "startsWith ''Bearer tok'' ''Bearer ''" by (simp add: startsWith_def)
  have v: "verifyToken (drop 7 ''Bearer tok'') (now_lookup ?w) (verify_answer ?w) (now_store ?w)
      (tokenCache ?s) = (sample_auth, [''tok'' \<mapsto> \<lparr>result = sample_auth, expires = 61020\<rparr>], True)"
    by (simp add: sample_world_def sample_node_def sample_verify)
  have va: "valid sample_auth" by (simp add: sample_auth_def)
  from usage_counts_own_records [OF b v va, of sample_platform 2000] b va
  show ?thesis by (simp add: sample_defs)
qed

subsection \<open>The usage ledger\<close>

lemma fold_push_usage:
  "fold push_usage mid s = s\<lparr>pendingUsage := pendingUsage s @ mid\<rparr>"
  by (induction mid arbitrary: s) (simp_all add: push_usage_def)

lemma held_push_usage: "mset (held (push_usage r s)) = mset (held s) + {#r#}"
  by (simp add: held_def push_usage_def)

lemma held_reportUsage_begin: "held (reportUsage_begin s) = held s"
  by (simp add: held_def reportUsage_begin_def)

lemma mset_concat_without:
  assumes "i < length xss"
  shows "mset (concat (take i xss @ drop (Suc i) xss)) + mset (xss ! i) = mset (concat xss)"
proof -
  from assms have "xss = take i xss @ xss ! i # drop (Suc i) xss"
    by (rule id_take_nth_drop)
  then have "mset (concat xss) = mset (concat (take i xss @ xss ! i # drop (Suc i) xss))"
    by simp
  then show ?thesis by simp
qed

lemma mset_concat_rev: "mset (concat (rev xss)) = mset (concat xss)"
  by (induction xss) simp_all

lemma held_reportUsage_end:
  "mset (held (fst (reportUsage_end p i outcome s))) +
     mset (case snd (reportUsage_end p i outcome s) of
             Reported batch \<Rightarrow> batch | Lost batch \<Rightarrow> batch | _ \<Rightarrow> [])
   = mset (held s)"
proof (cases "i < length (in_flight s)")
  case False
  then show ?thesis by (simp add: reportUsage_end_def)
next
  case True
  from mset_concat_without [OF True] show ?thesis
    using True
    by (auto simp: reportUsage_end_def push_records_def held_def Let_def ac_simps)
qed

lemma submission_failed_pushes_back: "submission_failed outcome \<Longrightarrow> pushes_back outcome"
  by (cases outcome) simp_all

text \<open>
  Within the limit of the spread, a call that reaches the push puts back exactly its
  batch, once; this holds as well for the batch of an ok response whose body does not
  decode for the log (\<open>SubmitOk False\<close>), which the endpoint has accepted.
\<close>

lemma reportUsage_end_requeues:
  assumes "i < length (in_flight s)" and "pushes_back outcome"
    and "length (in_flight s ! i) \<le> max_arguments p"
  shows "reportUsage_end p i outcome s =
           (s\<lparr>in_flight := take i (in_flight s) @ drop (Suc i) (in_flight s),
              pendingUsage := pendingUsage s @ in_flight s ! i\<rparr>, Requeued)"
  using assms by (simp add: reportUsage_end_def push_records_def Let_def)

text \<open>Beyond the limit, the batch leaves the batches in flight and the ledger does not get it.\<close>

lemma reportUsage_end_loses:
  assumes "i < length (in_flight s)" and "pushes_back outcome"
    and "max_arguments p < length (in_flight s ! i)"
  shows "reportUsage_end p i outcome s =
           (s\<lparr>in_flight := take i (in_flight s) @ drop (Suc i) (in_flight s)\<rparr>,
            Lost (in_flight s ! i))"
  using assms by (simp add: reportUsage_end_def push_records_def Let_def)

lemma flush_cycle_requeues:
  assumes "pushes_back outcome" and "length (pendingUsage s) \<le> max_arguments p"
  shows "fst (flush_cycle p outcome mid s) = s\<lparr>pendingUsage := mid @ pendingUsage s\<rparr>"
proof (cases "pendingUsage s = []")
  case True
  then show ?thesis by (simp add: flush_cycle_def fold_push_usage)
next
  case False
  then show ?thesis
    using assms
    by (simp add: flush_cycle_def fold_push_usage reportUsage_begin_def
          reportUsage_end_requeues)
qed

lemma flush_cycles_requeue:
  assumes "list_all (\<lambda>c. pushes_back (fst c)) cs"
    and "length (pendingUsage s) + length (concat (map snd cs)) \<le> max_arguments p"
  shows "flush_cycles p cs s = s\<lparr>pendingUsage := concat (rev (map snd cs)) @ pendingUsage s\<rparr>"
  using assms
  by (induction cs arbitrary: s) (simp_all add: flush_cycle_requeues)

lemma flush_cycle_reported:
  assumes "pendingUsage s \<noteq> []"
  shows "flush_cycle p (SubmitOk True) mid s = (s\<lparr>pendingUsage := mid\<rparr>, Reported (pendingUsage s))"
  using assms
  by (simp add: flush_cycle_def fold_push_usage reportUsage_begin_def reportUsage_end_def Let_def)

lemma flush_cycle_loses:
  assumes "pushes_back outcome" and "max_arguments p < length (pendingUsage s)"
  shows "flush_cycle p outcome mid s = (s\<lparr>pendingUsage := mid\<rparr>, Lost (pendingUsage s))"
proof -
  from assms(2) have "pendingUsage s \<noteq> []" by auto
  with assms show ?thesis
    by (simp add: flush_cycle_def fold_push_usage reportUsage_begin_def reportUsage_end_loses)
qed

text \<open>
  Claim C3. The claim says that a flush whose submission throws or returns a status that
  is not a success appends exactly its batch back onto the ledger, so that no record is
  lost. The code does so for a batch that a call can spread (\<open>reportUsage_end_requeues\<close>,
  \<open>flush_cycles_requeue\<close>), and loses the whole batch otherwise: with 125001 pending
  records and a limit of 125000 arguments, a flush cycle whose submission throws, or is
  answered with a status that is not a success, ends with the batch neither in the
  ledger nor in flight nor reported; the ledger holds only what was appended meanwhile.
\<close>

theorem oversized_batch_lost:
  "flush_cycle sample_platform SubmitThrew []
     (sample_node (replicate 125001 (sample_record ''agent-1'' 200))) =
     (sample_node [], Lost (replicate 125001 (sample_record ''agent-1'' 200))) \<and>
   flush_cycle sample_platform (SubmitNotOk True) [sample_record ''agent-2'' 200]
     (sample_node (replicate 125001 (sample_record ''agent-1'' 200))) =
     (sample_node [sample_record ''agent-2'' 200],
      Lost (replicate 125001 (sample_record ''agent-1'' 200))) \<and>
   held (fst (flush_cycle sample_platform SubmitThrew []
     (sample_node (replicate 125001 (sample_record ''agent-1'' 200))))) = []"
proof -
  let ?s = "sample_node (replicate 125001 (sample_record ''agent-1'' 200))"
  have big: "max_arguments sample_platform < length (pendingUsage ?s)"
    by (simp add: sample_platform_def sample_node_def)
  have 1: "flush_cycle sample_platform SubmitThrew [] ?s =
      (?s\<lparr>pendingUsage := []\<rparr>, Lost (pendingUsage ?s))"
    using big by (simp add: flush_cycle_loses)
  have 2: "flush_cycle sample_platform (SubmitNotOk True) [sample_record ''agent-2'' 200] ?s =
      (?s\<lparr>pendingUsage := [sample_record ''agent-2'' 200]\<rparr>, Lost (pendingUsage ?s))"
    using big by (simp add: flush_cycle_loses)
  show ?thesis
    by (simp only: 1 2) (simp add: sample_node_def held_def)
qed

end
